theory Spec2Isabelle
  imports Main
begin

section \<open>Retail Sales Visualizer: the loader and the dashboard script of app.py\<close>

text \<open>
  The program is one Streamlit script, \<^verbatim>\<open>app.py\<close>: the function \<^verbatim>\<open>load_data\<close>
  (lines 15-70) reads \<^verbatim>\<open>data/superstore.csv\<close> with pandas, and the script body
  (lines 72-131) filters the frame by region and draws three tabs.

  The data frame operations the script calls are pandas'. They are written out here at
  the level the script uses them: a frame is its list of named columns in order
  (names may repeat, as in pandas), a column is a list of cells, and every Python
  exception is a value of \<open>exn\<close>. What depends on floating point (the number read from a
  field) and pandas' guessing date parser are parameters of the model.
\<close>

subsection \<open>Cells, columns, frames\<close>

typedecl float64

record date =
  year :: nat
  month :: nat
  day :: nat

datatype cell = Null | Text string | Stamp date | Number float64

type_synonym series = "cell list"

type_synonym frame = "(string \<times> series) list"

datatype exn =
  KeyError | ValueError | TypeError | AttributeError | NotImplementedError | ReadError

text \<open>\<^verbatim>\<open>df.columns\<close>: the column names, in order.\<close>

definition columns :: "frame \<Rightarrow> string list" where
  "columns df = map fst df"

text \<open>
  \<^verbatim>\<open>df[key]\<close>: KeyError when no column has the name, the column when one has, and a
  frame of all the columns of that name when several have.
\<close>

datatype selection = Series series | SubFrame "series list"

definition getitem :: "frame \<Rightarrow> string \<Rightarrow> exn + selection" where
  "getitem df key =
     (case map snd (filter (\<lambda>c. fst c = key) df) of
        [] \<Rightarrow> Inl KeyError
      | [xs] \<Rightarrow> Inr (Series xs)
      | xs # ys # zs \<Rightarrow> Inr (SubFrame (xs # ys # zs)))"

text \<open>
  \<^verbatim>\<open>df[key] = value\<close> for a column value: a new name is appended as the last column;
  an existing name keeps its place and every column of that name receives the value.
\<close>

definition setitem :: "frame \<Rightarrow> string \<Rightarrow> series \<Rightarrow> frame" where
  "setitem df key v =
     (if key \<in> set (columns df)
      then map (\<lambda>c. if fst c = key then (key, v) else c) df
      else df @ [(key, v)])"

text \<open>A frame has \<open>n\<close> rows when each of its columns holds \<open>n\<close> cells.\<close>

definition has_rows :: "nat \<Rightarrow> (string \<times> 'a list) list \<Rightarrow> bool" where
  "has_rows n df = list_all (\<lambda>c. length (snd c) = n) df"

subsection \<open>Column names: strip, lower, rename (lines 31-38)\<close>

text \<open>
  A \<open>char\<close> stands for the code point of the same number (below 256). On these,
  \<^verbatim>\<open>str.isspace\<close> holds of 9-13, 28-32, 133 and 160, and \<^verbatim>\<open>str.lower\<close> moves
  A-Z and 192-222 (but 215) up by 32.
\<close>

definition isspace :: "char \<Rightarrow> bool" where
  "isspace c =
     (let n = (of_char c :: nat)
      in (9 \<le> n \<and> n \<le> 13) \<or> (28 \<le> n \<and> n \<le> 32) \<or> n = 133 \<or> n = 160)"

definition lower_char :: "char \<Rightarrow> char" where
  "lower_char c =
     (let n = (of_char c :: nat)
      in if (65 \<le> n \<and> n \<le> 90) \<or> (192 \<le> n \<and> n \<le> 222 \<and> n \<noteq> 215)
         then char_of (n + 32) else c)"

definition str_strip :: "string \<Rightarrow> string" where
  "str_strip s = rev (dropWhile isspace (rev (dropWhile isspace s)))"

definition str_lower :: "string \<Rightarrow> string" where
  "str_lower s = map lower_char s"

definition rename_table :: "(string \<times> string) list" where
  "rename_table =
     [(''profit'', ''profit''),
      (''discount'', ''discount''),
      (''order date'', ''order_date''),
      (''sales'', ''sales''),
      (''region'', ''region'')]"

definition rename :: "string \<Rightarrow> string" where
  "rename name = (case map_of rename_table name of Some canon \<Rightarrow> canon | None \<Rightarrow> name)"

definition standard_name :: "string \<Rightarrow> string" where
  "standard_name name = rename (str_lower (str_strip name))"

definition standardize_columns :: "frame \<Rightarrow> frame" where
  "standardize_columns df = map (\<lambda>c. (standard_name (fst c), snd c)) df"

subsection \<open>Dates: strptime and strftime on the formats of the script\<close>

definition digit_val :: "char \<Rightarrow> nat option" where
  "digit_val = map_of
     [(CHR ''0'', 0), (CHR ''1'', 1), (CHR ''2'', 2), (CHR ''3'', 3), (CHR ''4'', 4),
      (CHR ''5'', 5), (CHR ''6'', 6), (CHR ''7'', 7), (CHR ''8'', 8), (CHR ''9'', 9)]"

text \<open>
  The directives as pandas' strptime matches them, each giving its alternatives in the
  order they are tried, as (value, rest of the input):
  \<^verbatim>\<open>%d\<close> is \<^verbatim>\<open>3[0-1]|[1-2]\d|0[1-9]|[1-9]| [1-9]\<close>,
  \<^verbatim>\<open>%m\<close> is \<^verbatim>\<open>1[0-2]|0[1-9]|[1-9]\<close>, \<^verbatim>\<open>%Y\<close> is \<^verbatim>\<open>\d\d\d\d\<close>.
\<close>

definition two_digits :: "(nat \<Rightarrow> nat \<Rightarrow> bool) \<Rightarrow> string \<Rightarrow> (nat \<times> string) list" where
  "two_digits ok s =
     (case s of
        a # b # rest \<Rightarrow>
          (case (digit_val a, digit_val b) of
             (Some x, Some y) \<Rightarrow> if ok x y then [(10 * x + y, rest)] else []
           | _ \<Rightarrow> [])
      | _ \<Rightarrow> [])"

definition one_digit :: "string \<Rightarrow> (nat \<times> string) list" where
  "one_digit s =
     (case s of
        a # rest \<Rightarrow>
          (case digit_val a of Some x \<Rightarrow> if 1 \<le> x then [(x, rest)] else [] | None \<Rightarrow> [])
      | _ \<Rightarrow> [])"

definition match_d :: "string \<Rightarrow> (nat \<times> string) list" where
  "match_d s =
     two_digits (\<lambda>x y. (x = 3 \<and> y \<le> 1) \<or> x = 1 \<or> x = 2 \<or> (x = 0 \<and> 1 \<le> y)) s
     @ one_digit s
     @ (case s of a # rest \<Rightarrow> if a = CHR '' '' then one_digit rest else [] | _ \<Rightarrow> [])"

definition match_m :: "string \<Rightarrow> (nat \<times> string) list" where
  "match_m s =
     two_digits (\<lambda>x y. (x = 1 \<and> y \<le> 2) \<or> (x = 0 \<and> 1 \<le> y)) s @ one_digit s"

definition match_Y :: "string \<Rightarrow> (nat \<times> string) list" where
  "match_Y s =
     (case s of
        a # b # c # d # rest \<Rightarrow>
          (case (digit_val a, digit_val b, digit_val c, digit_val d) of
             (Some w, Some x, Some y, Some z) \<Rightarrow>
               [(1000 * w + 100 * x + 10 * y + z, rest)]
           | _ \<Rightarrow> [])
      | _ \<Rightarrow> [])"

fun first_some :: "'a option list \<Rightarrow> 'a option" where
  "first_some [] = None"
| "first_some (Some x # _) = Some x"
| "first_some (None # xs) = first_some xs"

text \<open>
  Matching a format against the whole of a string (the match is exact: nothing may
  remain). A directive other than the three above is not part of the model.
\<close>

fun match_format :: "string \<Rightarrow> string \<Rightarrow> date \<Rightarrow> date option" where
  "match_format [] s acc = (if s = [] then Some acc else None)"
| "match_format [c] s acc =
     (case s of [] \<Rightarrow> None | x # rest \<Rightarrow> if x = c \<and> rest = [] then Some acc else None)"
| "match_format (c # k # fmt) s acc =
     (if c = CHR ''%'' then
        (if k = CHR ''d'' then
           first_some (map (\<lambda>(v, rest). match_format fmt rest (acc\<lparr>day := v\<rparr>)) (match_d s))
         else if k = CHR ''m'' then
           first_some (map (\<lambda>(v, rest). match_format fmt rest (acc\<lparr>month := v\<rparr>)) (match_m s))
         else if k = CHR ''Y'' then
           first_some (map (\<lambda>(v, rest). match_format fmt rest (acc\<lparr>year := v\<rparr>)) (match_Y s))
         else None)
      else (case s of [] \<Rightarrow> None
            | x # rest \<Rightarrow> if x = c then match_format (k # fmt) rest acc else None))"

definition leap_year :: "nat \<Rightarrow> bool" where
  "leap_year y = (y mod 4 = 0 \<and> (y mod 100 \<noteq> 0 \<or> y mod 400 = 0))"

definition days_in_month :: "nat \<Rightarrow> nat \<Rightarrow> nat" where
  "days_in_month y m =
     (if m = 2 then (if leap_year y then 29 else 28)
      else if m = 4 \<or> m = 6 \<or> m = 9 \<or> m = 11 then 30 else 31)"

text \<open>A date of the calendar: a month of the year and a day of that month.\<close>

definition calendar_date :: "date \<Rightarrow> bool" where
  "calendar_date d =
     (1 \<le> month d \<and> month d \<le> 12 \<and>
      1 \<le> day d \<and> day d \<le> days_in_month (year d) (month d))"

text \<open>
  The years Python's own dates have. pandas reads a format that is ISO 8601 (among the
  formats of the script, \<^verbatim>\<open>%Y-%m-%d\<close>) with its ISO parser, which knows the year 0; any
  other format goes through Python's dates, which start at the year 1.
\<close>

definition python_year :: "nat \<Rightarrow> bool" where
  "python_year y = (1 \<le> y \<and> y \<le> 9999)"

definition format_is_iso :: "string \<Rightarrow> bool" where
  "format_is_iso fmt = (fmt = ''%Y-%m-%d'')"

definition strptime :: "string \<Rightarrow> string \<Rightarrow> date option" where
  "strptime s fmt =
     (case match_format fmt s \<lparr>year = 1900, month = 1, day = 1\<rparr> of
        None \<Rightarrow> None
      | Some d \<Rightarrow>
          if calendar_date d \<and> (format_is_iso fmt \<or> python_year (year d))
          then Some d else None)"

definition month_abbr :: "nat \<Rightarrow> string" where
  "month_abbr m =
     (if 1 \<le> m \<and> m \<le> 12
      then [''Jan'', ''Feb'', ''Mar'', ''Apr'', ''May'', ''Jun'',
            ''Jul'', ''Aug'', ''Sep'', ''Oct'', ''Nov'', ''Dec''] ! (m - 1)
      else [])"

definition digit_char :: "nat \<Rightarrow> char" where
  "digit_char n = ''0123456789'' ! (n mod 10)"

definition two_digit :: "nat \<Rightarrow> string" where
  "two_digit n = [digit_char (n div 10), digit_char n]"

text \<open>
  A number in decimal, without leading zeros: this is how \<^verbatim>\<open>%Y\<close> writes the year
  (the C library under the loader does not pad a year below 1000: the year 999 is
  written \<^verbatim>\<open>999\<close>).
\<close>

function decimal :: "nat \<Rightarrow> string" where
  "decimal n = (if n < 10 then [digit_char n] else decimal (n div 10) @ [digit_char n])"
  by pat_completeness auto
termination
  by (relation "measure (\<lambda>n. n)") auto

declare decimal.simps [simp del]

fun strftime :: "string \<Rightarrow> date \<Rightarrow> string" where
  "strftime [] d = []"
| "strftime [c] d = [c]"
| "strftime (c # k # fmt) d =
     (if c = CHR ''%'' then
        (if k = CHR ''b'' then month_abbr (month d)
         else if k = CHR ''Y'' then decimal (year d)
         else if k = CHR ''m'' then two_digit (month d)
         else if k = CHR ''d'' then two_digit (day d)
         else [c, k]) @ strftime fmt d
      else c # strftime (k # fmt) d)"

subsection \<open>The pandas conversions the loader calls\<close>

text \<open>
  The parts of pandas that are not written out: the float that \<^verbatim>\<open>to_numeric\<close>
  reads from a value (None where \<^verbatim>\<open>errors='coerce'\<close> gives NaN); what
  \<^verbatim>\<open>to_datetime\<close> without a format does with a column: it raises (on mixed time
  zones, for one), or it reads from each value a date or nothing (NaT); and the date of
  the clock, which is what the strings \<^verbatim>\<open>now\<close> and \<^verbatim>\<open>today\<close> are read as.
\<close>

record library =
  to_float :: "cell \<Rightarrow> float64 option"
  guess_dates :: "series \<Rightarrow> exn + (cell \<Rightarrow> date option)"
  today :: date

fun sequence :: "(exn + 'a) list \<Rightarrow> exn + 'a list" where
  "sequence [] = Inr []"
| "sequence (Inl e # _) = Inl e"
| "sequence (Inr x # rs) = (case sequence rs of Inl e \<Rightarrow> Inl e | Inr xs \<Rightarrow> Inr (x # xs))"

definition nat_strings :: "string list" where
  "nat_strings = [''NaT'', ''nat'', ''NAT'', ''nan'', ''NaN'', ''NAN'']"

definition clock_strings :: "string list" where
  "clock_strings = [''now'', ''today'']"

text \<open>
  \<^verbatim>\<open>pd.to_datetime(col, format=fmt)\<close>: a missing value stays missing, and so does an
  empty string or a spelling of NaT; \<^verbatim>\<open>now\<close> and \<^verbatim>\<open>today\<close> are read as the
  clock, whatever the format; any other string must match the format and be a date,
  or the call raises; a number, turned into a string, matches none of the formats of
  the script. Called on several columns at once it raises as well.
\<close>

definition parse_cell :: "library \<Rightarrow> string \<Rightarrow> cell \<Rightarrow> exn + cell" where
  "parse_cell L fmt c =
     (case c of
        Null \<Rightarrow> Inr Null
      | Text s \<Rightarrow>
          if s = [] \<or> s \<in> set nat_strings then Inr Null
          else if s \<in> set clock_strings then Inr (Stamp (today L))
          else (case strptime s fmt of Some d \<Rightarrow> Inr (Stamp d) | None \<Rightarrow> Inl ValueError)
      | Stamp d \<Rightarrow> Inr (Stamp d)
      | Number x \<Rightarrow> Inl ValueError)"

definition to_datetime_format :: "library \<Rightarrow> string \<Rightarrow> selection \<Rightarrow> exn + series" where
  "to_datetime_format L fmt sel =
     (case sel of
        Series xs \<Rightarrow> sequence (map (parse_cell L fmt) xs)
      | SubFrame _ \<Rightarrow> Inl ValueError)"

text \<open>
  \<^verbatim>\<open>pd.to_datetime(col, errors='coerce')\<close>: the call may raise on the column as a
  whole; when it does not, what is not read as a date is NaT.
\<close>

definition coerce_cell :: "(cell \<Rightarrow> date option) \<Rightarrow> cell \<Rightarrow> cell" where
  "coerce_cell guess c =
     (case guess c of
        Some d \<Rightarrow> if calendar_date d then Stamp d else Null
      | None \<Rightarrow> Null)"

definition to_datetime_coerce :: "library \<Rightarrow> selection \<Rightarrow> exn + series" where
  "to_datetime_coerce L sel =
     (case sel of
        Series xs \<Rightarrow>
          (case guess_dates L xs of
             Inl e \<Rightarrow> Inl e
           | Inr guess \<Rightarrow> Inr (map (coerce_cell guess) xs))
      | SubFrame _ \<Rightarrow> Inl ValueError)"

text \<open>
  \<^verbatim>\<open>col.dt.strftime(fmt)\<close>: the accessor exists on a column of timestamps only;
  a timestamp outside the years of Python's dates cannot be formatted
  (NotImplementedError); NaT gives a missing label.
\<close>

definition printable :: "cell \<Rightarrow> bool" where
  "printable c = (case c of Stamp d \<Rightarrow> python_year (year d) | _ \<Rightarrow> True)"

definition datetimelike :: "cell \<Rightarrow> bool" where
  "datetimelike c = (case c of Null \<Rightarrow> True | Stamp _ \<Rightarrow> True | _ \<Rightarrow> False)"

definition label_cell :: "string \<Rightarrow> cell \<Rightarrow> cell" where
  "label_cell fmt c = (case c of Stamp d \<Rightarrow> Text (strftime fmt d) | _ \<Rightarrow> Null)"

definition dt_strftime :: "string \<Rightarrow> selection \<Rightarrow> exn + series" where
  "dt_strftime fmt sel =
     (case sel of
        Series xs \<Rightarrow>
          if \<not> list_all datetimelike xs then Inl AttributeError
          else if \<not> list_all printable xs then Inl NotImplementedError
          else Inr (map (label_cell fmt) xs)
      | SubFrame _ \<Rightarrow> Inl AttributeError)"

text \<open>\<^verbatim>\<open>pd.to_numeric(col, errors='coerce')\<close>; it takes one column only.\<close>

definition numeric_cell :: "library \<Rightarrow> cell \<Rightarrow> cell" where
  "numeric_cell L c = (case to_float L c of Some x \<Rightarrow> Number x | None \<Rightarrow> Null)"

definition to_numeric_coerce :: "library \<Rightarrow> selection \<Rightarrow> exn + series" where
  "to_numeric_coerce L sel =
     (case sel of
        Series xs \<Rightarrow> Inr (map (numeric_cell L) xs)
      | SubFrame _ \<Rightarrow> Inl TypeError)"

subsection \<open>load\_data (lines 15-70)\<close>

text \<open>
  What the loader reads from outside: whether the path exists, and what
  \<^verbatim>\<open>pd.read_csv\<close> gives for the file under an encoding: an exception, or the
  headers with their columns. A value read from a CSV file (no \<^verbatim>\<open>parse_dates\<close> is
  asked for) is missing, a string or a number, never a timestamp.
\<close>

datatype field = Missing | Str string | Num float64

type_synonym table = "(string \<times> field list) list"

record env =
  path_exists :: bool
  read_csv :: "string \<Rightarrow> exn + table"

text \<open>The frame \<^verbatim>\<open>pd.read_csv\<close> returns holds what was read, under the headers as read.\<close>

definition cell_of :: "field \<Rightarrow> cell" where
  "cell_of f = (case f of Missing \<Rightarrow> Null | Str s \<Rightarrow> Text s | Num x \<Rightarrow> Number x)"

definition frame_of :: "table \<Rightarrow> frame" where
  "frame_of t = map (\<lambda>c. (fst c, map cell_of (snd c))) t"

definition csv_path :: string where
  "csv_path = ''data/superstore.csv''"

definition encodings :: "string list" where
  "encodings = [''utf-8'', ''latin1'', ''windows-1252'']"

definition date_formats :: "string list" where
  "date_formats = [''%d/%m/%Y'', ''%m/%d/%Y'', ''%Y-%m-%d'']"

definition num_cols :: "string list" where
  "num_cols = [''profit'', ''discount'', ''sales'']"

definition and_then :: "exn + 'a \<Rightarrow> ('a \<Rightarrow> exn + 'b) \<Rightarrow> exn + 'b" where
  "and_then r f = (case r of Inl e \<Rightarrow> Inl e | Inr x \<Rightarrow> f x)"

text \<open>
  Lines 42-49. Each format is tried inside \<^verbatim>\<open>try\<close> with a bare \<^verbatim>\<open>except\<close>: whatever
  the attempt raises (the column lookup included) moves on to the next format, and the
  first success breaks. The \<^verbatim>\<open>else\<close> of the loop runs when no format succeeded, and
  is not guarded.
\<close>

fun convert_dates :: "library \<Rightarrow> string list \<Rightarrow> frame \<Rightarrow> exn + frame" where
  "convert_dates L [] df =
     and_then (and_then (getitem df ''order_date'') (to_datetime_coerce L))
       (\<lambda>v. Inr (setitem df ''order_date'' v))"
| "convert_dates L (fmt # fmts) df =
     (case and_then (getitem df ''order_date'') (to_datetime_format L fmt) of
        Inr v \<Rightarrow> Inr (setitem df ''order_date'' v)
      | Inl _ \<Rightarrow> convert_dates L fmts df)"

text \<open>Lines 55-58.\<close>

fun ensure_numeric :: "library \<Rightarrow> string list \<Rightarrow> frame \<Rightarrow> exn + frame" where
  "ensure_numeric L [] df = Inr df"
| "ensure_numeric L (col # cols) df =
     (if col \<in> set (columns df)
      then and_then (and_then (getitem df col) (to_numeric_coerce L))
             (\<lambda>v. ensure_numeric L cols (setitem df col v))
      else ensure_numeric L cols df)"

text \<open>Lines 28-60: the body of the inner \<^verbatim>\<open>try\<close>, for one encoding.\<close>

definition load_with :: "library \<Rightarrow> env \<Rightarrow> string \<Rightarrow> exn + frame" where
  "load_with L E encoding =
     and_then (read_csv E encoding) (\<lambda>t.
     and_then (convert_dates L date_formats (standardize_columns (frame_of t))) (\<lambda>df.
     and_then (and_then (getitem df ''order_date'') (dt_strftime ''%b-%Y'')) (\<lambda>v.
     ensure_numeric L num_cols (setitem df ''month_year'' v))))"

text \<open>
  The result of a call: the value returned (None or the frame) and the messages given
  to \<^verbatim>\<open>st.error\<close>, in order.
\<close>

definition not_found_message :: string where
  "not_found_message = ''Error: File '' @ [CHR 0x27] @ csv_path @ [CHR 0x27] @ '' not found''"

definition all_failed_message :: string where
  "all_failed_message = ''Failed to load data with all encoding attempts''"

text \<open>Lines 26-66: \<^verbatim>\<open>except Exception: continue\<close> moves on to the next encoding.\<close>

fun try_encodings :: "library \<Rightarrow> env \<Rightarrow> string list \<Rightarrow> frame option \<times> string list" where
  "try_encodings L E [] = (None, [all_failed_message])"
| "try_encodings L E (encoding # rest) =
     (case load_with L E encoding of
        Inr df \<Rightarrow> (Some df, [])
      | Inl _ \<Rightarrow> try_encodings L E rest)"

text \<open>
  The outer \<^verbatim>\<open>try\<close> (lines 18, 68-70) has nothing left to catch: every exception of
  the calls above is raised inside the inner \<^verbatim>\<open>try\<close> and ends there.
\<close>

definition load_data :: "library \<Rightarrow> env \<Rightarrow> frame option \<times> string list" where
  "load_data L E =
     (if \<not> path_exists E then (None, [not_found_message])
      else try_encodings L E encodings)"

subsection \<open>The script (lines 72-131)\<close>

text \<open>
  What a run of the script puts on the page, in order, and how the run ends:
  at \<^verbatim>\<open>st.stop()\<close>, with an exception nothing catches, or past the three tabs.
  The sidebar part after the tabs (lines 133-169: upload and data summary) is not
  modelled. The captions of the title and the subheaders are fixed texts and are not
  carried; the widget and drawing calls are taken to return.
\<close>

datatype chart = MonthlySalesTrend | SalesByRegion | ProfitDiscountCorrelation

datatype element =
    Error string
  | Warning string
  | Title
  | Markdown
  | SidebarHeader
  | Multiselect "cell list" "cell list"
  | Tabs
  | Subheader chart
  | Pyplot chart

datatype status = Stopped | Raised exn | TabsDone

record run =
  page :: "element list"
  status :: status

text \<open>\<^verbatim>\<open>Series.unique()\<close>: the values in order of first appearance. A frame of
  several columns has no such method.\<close>

definition unique :: "series \<Rightarrow> series" where
  "unique xs = rev (remdups (rev xs))"

text \<open>Line 84.\<close>

definition available_regions :: "frame \<Rightarrow> exn + cell list" where
  "available_regions df =
     (if ''region'' \<in> set (columns df)
      then and_then (getitem df ''region'')
             (\<lambda>sel. case sel of Series xs \<Rightarrow> Inr (unique xs) | SubFrame _ \<Rightarrow> Inl AttributeError)
      else Inr [])"

text \<open>
  Lines 85-89. The widget gives its default, the first two regions, until the user
  has chosen; then it gives the user's choice.
\<close>

definition selected_region :: "cell list option \<Rightarrow> cell list \<Rightarrow> cell list" where
  "selected_region choice available =
     (case choice of None \<Rightarrow> take 2 available | Some chosen \<Rightarrow> chosen)"

text \<open>\<^verbatim>\<open>col.isin(values)\<close> and \<^verbatim>\<open>df[mask]\<close>: the rows where the mask is true.\<close>

definition isin :: "series \<Rightarrow> cell list \<Rightarrow> bool list" where
  "isin xs vals = map (\<lambda>x. x \<in> set vals) xs"

definition select_rows :: "bool list \<Rightarrow> 'a list \<Rightarrow> 'a list" where
  "select_rows keep xs = map snd (filter fst (zip keep xs))"

definition boolean_index :: "frame \<Rightarrow> bool list \<Rightarrow> frame" where
  "boolean_index df keep = map (\<lambda>c. (fst c, select_rows keep (snd c))) df"

text \<open>Line 92. (With several region columns line 84 has raised before.)\<close>

definition filtered_df :: "frame \<Rightarrow> cell list \<Rightarrow> exn + frame" where
  "filtered_df df selected =
     (if ''region'' \<in> set (columns df)
      then and_then (getitem df ''region'')
             (\<lambda>sel. case sel of
                      Series xs \<Rightarrow> Inr (boolean_index df (isin xs selected))
                    | SubFrame _ \<Rightarrow> Inl ValueError)
      else Inr df)"

text \<open>
  \<^verbatim>\<open>df.groupby(key)[col].sum()\<close>: the key must name one column. The sums are numbers
  and are not computed here.
\<close>

definition groupby_sum :: "frame \<Rightarrow> string \<Rightarrow> string \<Rightarrow> exn + unit" where
  "groupby_sum df key col =
     and_then (getitem df key)
       (\<lambda>k. case k of
               SubFrame _ \<Rightarrow> Inl ValueError
             | Series _ \<Rightarrow> and_then (getitem df col) (\<lambda>_. Inr ()))"

text \<open>A part of the script: what it shows, and the exception that ended it, if any.\<close>

type_synonym shown = "element list \<times> exn option"

text \<open>Lines 97-106.\<close>

definition tab1 :: "frame \<Rightarrow> shown" where
  "tab1 fdf =
     (if ''month_year'' \<in> set (columns fdf) \<and> ''sales'' \<in> set (columns fdf)
      then (case groupby_sum fdf ''month_year'' ''sales'' of
              Inl e \<Rightarrow> ([Subheader MonthlySalesTrend], Some e)
            | Inr _ \<Rightarrow> ([Subheader MonthlySalesTrend, Pyplot MonthlySalesTrend], None))
      else ([Warning ''Required columns for sales trend not available''], None))"

text \<open>Lines 108-116.\<close>

definition tab2 :: "frame \<Rightarrow> shown" where
  "tab2 fdf =
     (if ''region'' \<in> set (columns fdf) \<and> ''sales'' \<in> set (columns fdf)
      then (case groupby_sum fdf ''region'' ''sales'' of
              Inl e \<Rightarrow> ([Subheader SalesByRegion], Some e)
            | Inr _ \<Rightarrow> ([Subheader SalesByRegion, Pyplot SalesByRegion], None))
      else ([Warning ''Required columns for regional analysis not available''], None))"

text \<open>Lines 118-131.\<close>

fun join :: "string \<Rightarrow> string list \<Rightarrow> string" where
  "join sep [] = []"
| "join sep [x] = x"
| "join sep (x # y # ys) = x @ sep @ join sep (y # ys)"

definition tab3 :: "frame \<Rightarrow> shown" where
  "tab3 fdf =
     (if ''profit'' \<in> set (columns fdf) \<and> ''discount'' \<in> set (columns fdf)
      then ([Subheader ProfitDiscountCorrelation, Pyplot ProfitDiscountCorrelation], None)
      else
        (let missing = (if ''profit'' \<notin> set (columns fdf) then [''profit''] else [])
                     @ (if ''discount'' \<notin> set (columns fdf) then [''discount''] else [])
         in ([Warning (''Missing columns for correlation analysis: '' @ join '', '' missing)],
             None)))"

text \<open>Parts run in order; an exception in one ends the run there.\<close>

fun in_order :: "shown list \<Rightarrow> shown" where
  "in_order [] = ([], None)"
| "in_order ((els, Some e) # _) = (els, Some e)"
| "in_order ((els, None) # parts) =
     (case in_order parts of (later, r) \<Rightarrow> (els @ later, r))"

text \<open>Lines 73-131. \<open>choice\<close> is what the user has chosen in the region widget, if
  anything.\<close>

definition dashboard :: "library \<Rightarrow> env \<Rightarrow> cell list option \<Rightarrow> run" where
  "dashboard L E choice =
     (case load_data L E of
        (None, errors) \<Rightarrow> \<lparr>page = map Error errors, status = Stopped\<rparr>
      | (Some df, errors) \<Rightarrow>
          (let top = map Error errors @ [Title, Markdown, SidebarHeader]
           in case available_regions df of
                Inl e \<Rightarrow> \<lparr>page = top, status = Raised e\<rparr>
              | Inr available \<Rightarrow>
                  (let selected = selected_region choice available;
                       top = top @ [Multiselect available selected]
                   in case filtered_df df selected of
                        Inl e \<Rightarrow> \<lparr>page = top, status = Raised e\<rparr>
                      | Inr fdf \<Rightarrow>
                          (case in_order [tab1 fdf, tab2 fdf, tab3 fdf] of
                             (els, Some e) \<Rightarrow> \<lparr>page = top @ [Tabs] @ els, status = Raised e\<rparr>
                           | (els, None) \<Rightarrow> \<lparr>page = top @ [Tabs] @ els, status = TabsDone\<rparr>))))"

subsection \<open>The date step as the specification words it\<close>

text \<open>
  The specification describes lines 41-49 as an ordered list of formats of which the
  first that parses the whole column is used, with the guessing parser as a fallback.
  These definitions follow those words; they are compared with \<open>convert_dates\<close> below.
\<close>

definition fully_parses :: "library \<Rightarrow> string \<Rightarrow> series \<Rightarrow> bool" where
  "fully_parses L fmt col =
     list_all (\<lambda>c. case parse_cell L fmt c of Inr _ \<Rightarrow> True | Inl _ \<Rightarrow> False) col"

definition parsed_with :: "library \<Rightarrow> string \<Rightarrow> series \<Rightarrow> series" where
  "parsed_with L fmt col =
     map (\<lambda>c. case parse_cell L fmt c of Inr x \<Rightarrow> x | Inl _ \<Rightarrow> Null) col"

definition spec_dates :: "library \<Rightarrow> string list \<Rightarrow> series \<Rightarrow> exn + series" where
  "spec_dates L fmts col =
     (case find (\<lambda>fmt. fully_parses L fmt col) fmts of
        Some fmt \<Rightarrow> Inr (parsed_with L fmt col)
      | None \<Rightarrow> to_datetime_coerce L (Series col))"

subsection \<open>Auxiliary notions and example files\<close>

text \<open>What a conversion of the date column leaves: a column of timestamps as long as
  the one it read, holding dates of the calendar when it read no timestamp and the
  clock shows one.\<close>

definition dates_of :: "library \<Rightarrow> series \<Rightarrow> series \<Rightarrow> bool" where
  "dates_of L col v =
     (length v = length col \<and> list_all datetimelike v \<and>
      ((\<forall>c\<in>set col. \<forall>d. c \<noteq> Stamp d) \<and> calendar_date (today L) \<longrightarrow>
         (\<forall>d. Stamp d \<in> set v \<longrightarrow> calendar_date d)))"

text \<open>A frame has at most one column of a name.\<close>

definition at_most_one :: "frame \<Rightarrow> string \<Rightarrow> bool" where
  "at_most_one df key = (length (filter (\<lambda>c. fst c = key) df) \<le> 1)"

text \<open>A library that reads no number and guesses no date, on the first day of 2024.\<close>

definition plain_library :: library where
  "plain_library =
     \<lparr>to_float = (\<lambda>_. None),
      guess_dates = (\<lambda>_. Inr (\<lambda>_. None)),
      today = \<lparr>year = 2024, month = 1, day = 1\<rparr>\<rparr>"

text \<open>A file that is present and reads as the same table under every encoding.\<close>

definition env_of :: "table \<Rightarrow> env" where
  "env_of t = \<lparr>path_exists = True, read_csv = (\<lambda>_. Inr t)\<rparr>"

definition missing_file :: env where
  "missing_file = \<lparr>path_exists = False, read_csv = (\<lambda>_. Inl ReadError)\<rparr>"

definition dated_table :: table where
  "dated_table =
     [(''Order Date'', [Str ''31/12/2023'']),
      (''Sales'', [Str ''12.5''])]"

definition undated_table :: table where
  "undated_table = [(''Sales'', [Str ''100''])]"

definition two_region_table :: table where
  "two_region_table =
     [(''Order Date'', [Str ''31/12/2023'']),
      (''Region'', [Str ''East'']),
      (''region '', [Str ''West''])]"

definition store_table :: table where
  "store_table =
     [(''Order Date'', [Str ''31/12/2023'', Missing, Str ''02/01/2024'']),
      (''Region'', [Str ''East'', Str ''Central'', Str ''West'']),
      (''Sales'', [Str ''10'', Str ''20'', Str ''abc'']),
      (''Profit'', [Str ''1'', Str ''2'', Str ''3''])]"

definition old_table :: table where
  "old_table = [(''Order Date'', [Str ''15/06/0999''])]"

definition old_dataset :: frame where
  "old_dataset =
     [(''order_date'', [Stamp \<lparr>year = 999, month = 6, day = 15\<rparr>]),
      (''month_year'', [Text ''Jun-999''])]"

definition dated_dataset :: frame where
  "dated_dataset =
     [(''order_date'', [Stamp \<lparr>year = 2023, month = 12, day = 31\<rparr>]),
      (''sales'', [Null]),
      (''month_year'', [Text ''Dec-2023''])]"

definition two_region_dataset :: frame where
  "two_region_dataset =
     [(''order_date'', [Stamp \<lparr>year = 2023, month = 12, day = 31\<rparr>]),
      (''region'', [Text ''East'']),
      (''region'', [Text ''West'']),
      (''month_year'', [Text ''Dec-2023''])]"

definition store_dataset :: frame where
  "store_dataset =
     [(''order_date'', [Stamp \<lparr>year = 2023, month = 12, day = 31\<rparr>, Null,
                        Stamp \<lparr>year = 2024, month = 1, day = 2\<rparr>]),
      (''region'', [Text ''East'', Text ''Central'', Text ''West'']),
      (''sales'', [Null, Null, Null]),
      (''profit'', [Null, Null, Null]),
      (''month_year'', [Text ''Dec-2023'', Null, Text ''Jan-2024''])]"

section \<open>Properties\<close>

subsection \<open>Frames\<close>

lemma and_then_Inr: "and_then r f = Inr y \<longleftrightarrow> (\<exists>x. r = Inr x \<and> f x = Inr y)"
  by (cases r) (simp_all add: and_then_def)

lemma and_then_Inl: "and_then r f = Inl e \<longleftrightarrow> r = Inl e \<or> (\<exists>x. r = Inr x \<and> f x = Inl e)"
  by (cases r) (simp_all add: and_then_def)

lemma getitem_absent: "key \<notin> set (columns df) \<Longrightarrow> getitem df key = Inl KeyError"
proof -
  assume "key \<notin> set (columns df)"
  then have "filter (\<lambda>c. fst c = key) df = []"
    by (auto simp: columns_def filter_empty_conv)
  then show ?thesis by (simp add: getitem_def)
qed

lemma getitem_Inl: "getitem df key = Inl e \<Longrightarrow> key \<notin> set (columns df) \<and> e = KeyError"
proof -
  assume a: "getitem df key = Inl e"
  then have "map snd (filter (\<lambda>c. fst c = key) df) = []" and "e = KeyError"
    by (auto simp: getitem_def split: list.splits)
  then show ?thesis by (auto simp: columns_def filter_empty_conv)
qed

lemma getitem_Series:
  "getitem df key = Inr (Series xs) \<longleftrightarrow> filter (\<lambda>c. fst c = key) df = [(key, xs)]"
proof
  assume "getitem df key = Inr (Series xs)"
  then have m: "map snd (filter (\<lambda>c. fst c = key) df) = [xs]"
    by (auto simp: getitem_def split: list.splits)
  then obtain c where c: "filter (\<lambda>c. fst c = key) df = [c]" and "snd c = xs"
    by (auto simp: map_eq_Cons_conv)
  from c have "c \<in> set (filter (\<lambda>c. fst c = key) df)" by simp
  then have "fst c = key" by simp
  with c \<open>snd c = xs\<close> show "filter (\<lambda>c. fst c = key) df = [(key, xs)]"
    by (cases c) simp
next
  assume "filter (\<lambda>c. fst c = key) df = [(key, xs)]"
  then show "getitem df key = Inr (Series xs)" by (simp add: getitem_def)
qed

lemma getitem_Series_mem: "getitem df key = Inr (Series xs) \<Longrightarrow> (key, xs) \<in> set df"
proof -
  assume "getitem df key = Inr (Series xs)"
  then have "filter (\<lambda>c. fst c = key) df = [(key, xs)]" by (simp add: getitem_Series)
  then have "(key, xs) \<in> set (filter (\<lambda>c. fst c = key) df)" by simp
  then show ?thesis by simp
qed

lemma columns_setitem:
  "columns (setitem df key v) = (if key \<in> set (columns df) then columns df else columns df @ [key])"
  by (auto simp: setitem_def columns_def intro!: map_idI)

lemma filter_setitem_same:
  "filter (\<lambda>c. fst c = key) (setitem df key v) =
     (if key \<in> set (columns df) then map (\<lambda>_. (key, v)) (filter (\<lambda>c. fst c = key) df)
      else [(key, v)])"
proof (cases "key \<in> set (columns df)")
  case True
  have "filter (\<lambda>c. fst c = key) (map (\<lambda>c. if fst c = key then (key, v) else c) df)
        = map (\<lambda>_. (key, v)) (filter (\<lambda>c. fst c = key) df)"
    by (induction df) auto
  with True show ?thesis by (simp add: setitem_def)
next
  case False
  then have "filter (\<lambda>c. fst c = key) df = []"
    by (auto simp: columns_def filter_empty_conv)
  with False show ?thesis by (simp add: setitem_def)
qed

lemma filter_setitem_other:
  "j \<noteq> key \<Longrightarrow> filter (\<lambda>c. fst c = j) (setitem df key v) = filter (\<lambda>c. fst c = j) df"
proof -
  assume ne: "j \<noteq> key"
  have "filter (\<lambda>c. fst c = j) (map (\<lambda>c. if fst c = key then (key, v) else c) df)
        = filter (\<lambda>c. fst c = j) df"
    using ne by (induction df) auto
  with ne show ?thesis by (simp add: setitem_def)
qed

lemma getitem_setitem_Series:
  "getitem df key = Inr (Series xs) \<Longrightarrow> getitem (setitem df key v) key = Inr (Series v)"
proof -
  assume a: "getitem df key = Inr (Series xs)"
  then have f: "filter (\<lambda>c. fst c = key) df = [(key, xs)]" by (simp add: getitem_Series)
  have "key \<in> set (columns df)" using getitem_Series_mem[OF a] by (force simp: columns_def)
  with f show ?thesis by (simp add: getitem_Series filter_setitem_same)
qed

lemma getitem_setitem_other:
  "j \<noteq> key \<Longrightarrow> getitem (setitem df key v) j = getitem df j"
  by (simp add: getitem_def filter_setitem_other)

lemma has_rows_setitem:
  "has_rows n df \<Longrightarrow> length v = n \<Longrightarrow> has_rows n (setitem df key v)"
  by (auto simp: has_rows_def setitem_def list_all_iff)

lemma has_rows_mem: "has_rows n df \<Longrightarrow> (key, xs) \<in> set df \<Longrightarrow> length xs = n"
  by (auto simp: has_rows_def list_all_iff)

lemma has_rows_frame_of: "has_rows n (frame_of t) = has_rows n t"
  by (simp add: has_rows_def frame_of_def list_all_iff)

lemma has_rows_standardize: "has_rows n (standardize_columns df) = has_rows n df"
  by (simp add: has_rows_def standardize_columns_def list_all_iff)

lemma columns_standardize: "columns (standardize_columns df) = map standard_name (columns df)"
  by (simp add: columns_def standardize_columns_def)

lemma columns_frame_of: "columns (frame_of t) = map fst t"
  by (simp add: columns_def frame_of_def)

lemma sequence_Inr:
  "sequence (map f xs) = Inr ys \<Longrightarrow> length ys = length xs \<and> (\<forall>i<length xs. f (xs ! i) = Inr (ys ! i))"
proof (induction xs arbitrary: ys)
  case Nil
  then show ?case by simp
next
  case (Cons x xs)
  from Cons.prems obtain y where y: "f x = Inr y"
    by (cases "f x") simp_all
  with Cons.prems obtain zs where zs: "sequence (map f xs) = Inr zs" and ys: "ys = y # zs"
    by (cases "sequence (map f xs)") auto
  from Cons.IH[OF zs] y ys show ?case
    by (auto simp: nth_Cons split: nat.splits)
qed

lemma sequence_all_Inr:
  "(\<forall>x\<in>set xs. \<exists>y. f x = Inr y) \<Longrightarrow> sequence (map f xs) = Inr (map (\<lambda>x. case f x of Inr y \<Rightarrow> y | Inl _ \<Rightarrow> d) xs)"
  by (induction xs) auto

lemma sequence_some_Inl:
  "\<exists>x\<in>set xs. \<exists>e. f x = Inl e \<Longrightarrow> \<exists>e. sequence (map f xs) = Inl e"
proof (induction xs)
  case Nil
  then show ?case by simp
next
  case (Cons x xs)
  show ?case
  proof (cases "f x")
    case (Inl e)
    then show ?thesis by simp
  next
    case (Inr y)
    with Cons.prems have "\<exists>x\<in>set xs. \<exists>e. f x = Inl e" by auto
    from Cons.IH[OF this] Inr show ?thesis by auto
  qed
qed

subsection \<open>The conversions and the loader\<close>

lemma parse_cell_datetimelike: "parse_cell L fmt c = Inr c' \<Longrightarrow> datetimelike c'"
  by (auto simp: parse_cell_def datetimelike_def split: cell.splits if_splits option.splits)

lemma strptime_calendar: "strptime s fmt = Some d \<Longrightarrow> calendar_date d"
  by (auto simp: strptime_def split: option.splits if_splits)

lemma parse_cell_calendar:
  "parse_cell L fmt c = Inr (Stamp d) \<Longrightarrow> \<forall>d'. c \<noteq> Stamp d' \<Longrightarrow> calendar_date (today L) \<Longrightarrow>
     calendar_date d"
  by (auto simp: parse_cell_def strptime_calendar split: cell.splits if_splits option.splits)

lemma coerce_cell_datetimelike: "datetimelike (coerce_cell guess c)"
  by (auto simp: coerce_cell_def datetimelike_def split: option.splits)

lemma coerce_cell_calendar: "coerce_cell guess c = Stamp d \<Longrightarrow> calendar_date d"
  by (auto simp: coerce_cell_def split: option.splits if_splits)

lemma to_datetime_format_dates:
  assumes "to_datetime_format L fmt (Series col) = Inr v"
  shows "dates_of L col v"
proof -
  from assms have s: "sequence (map (parse_cell L fmt) col) = Inr v"
    by (simp add: to_datetime_format_def)
  from sequence_Inr[OF s] have len: "length v = length col"
    and each: "\<forall>i<length col. parse_cell L fmt (col ! i) = Inr (v ! i)" by auto
  have "list_all datetimelike v"
    unfolding list_all_length using each len parse_cell_datetimelike by auto
  moreover have "calendar_date d"
    if ns: "\<forall>c\<in>set col. \<forall>d. c \<noteq> Stamp d" and cl: "calendar_date (today L)"
      and m: "Stamp d \<in> set v" for d
  proof -
    from m obtain i where i: "i < length v" "v ! i = Stamp d" by (auto simp: in_set_conv_nth)
    with each len have p: "parse_cell L fmt (col ! i) = Inr (Stamp d)" by auto
    from i len ns have "\<forall>d'. col ! i \<noteq> Stamp d'" by auto
    with p cl show ?thesis by (blast intro: parse_cell_calendar)
  qed
  ultimately show ?thesis using len by (auto simp: dates_of_def)
qed

lemma to_datetime_coerce_dates:
  assumes "to_datetime_coerce L (Series col) = Inr v"
  shows "dates_of L col v"
proof -
  from assms obtain guess where "v = map (coerce_cell guess) col"
    by (auto simp: to_datetime_coerce_def split: sum.splits)
  then show ?thesis
    by (auto simp: dates_of_def list_all_iff coerce_cell_datetimelike coerce_cell_calendar)
qed

lemma convert_dates_Inr:
  "convert_dates L fmts df = Inr df' \<Longrightarrow>
     \<exists>col v. getitem df ''order_date'' = Inr (Series col) \<and>
             df' = setitem df ''order_date'' v \<and> dates_of L col v"
proof (induction fmts)
  case Nil
  then obtain sel v where g: "getitem df ''order_date'' = Inr sel"
    and c: "to_datetime_coerce L sel = Inr v" and d: "df' = setitem df ''order_date'' v"
    by (auto simp: and_then_Inr)
  from c obtain col where "sel = Series col"
    by (cases sel) (auto simp: to_datetime_coerce_def)
  with g c d to_datetime_coerce_dates show ?case by blast
next
  case (Cons fmt fmts)
  show ?case
  proof (cases "and_then (getitem df ''order_date'') (to_datetime_format L fmt)")
    case (Inl e)
    with Cons show ?thesis by simp
  next
    case (Inr v)
    then obtain sel where g: "getitem df ''order_date'' = Inr sel"
      and c: "to_datetime_format L fmt sel = Inr v"
      by (auto simp: and_then_Inr)
    from c obtain col where sel: "sel = Series col"
      by (cases sel) (auto simp: to_datetime_format_def)
    from Inr Cons.prems have "df' = setitem df ''order_date'' v" by simp
    with g c sel to_datetime_format_dates show ?thesis by blast
  qed
qed

lemma convert_dates_absent:
  "''order_date'' \<notin> set (columns df) \<Longrightarrow> convert_dates L fmts df = Inl KeyError"
  by (induction fmts) (simp_all add: getitem_absent and_then_def)

lemma ensure_numeric_Inr:
  "ensure_numeric L cols df = Inr out \<Longrightarrow>
     columns out = columns df \<and> (has_rows n df \<longrightarrow> has_rows n out) \<and>
     (\<forall>j. j \<notin> set cols \<longrightarrow> filter (\<lambda>c. fst c = j) out = filter (\<lambda>c. fst c = j) df)"
proof (induction cols arbitrary: df)
  case Nil
  then show ?case by simp
next
  case (Cons col cols)
  show ?case
  proof (cases "col \<in> set (columns df)")
    case False
    with Cons.prems have "ensure_numeric L cols df = Inr out" by simp
    from Cons.IH[OF this] show ?thesis by simp
  next
    case True
    with Cons.prems obtain sel v where g: "getitem df col = Inr sel"
      and c: "to_numeric_coerce L sel = Inr v"
      and r: "ensure_numeric L cols (setitem df col v) = Inr out"
      by (auto simp: and_then_Inr)
    from c obtain xs where sel: "sel = Series xs" and v: "v = map (numeric_cell L) xs"
      by (cases sel) (auto simp: to_numeric_coerce_def)
    from g sel have mem: "(col, xs) \<in> set df" by (simp add: getitem_Series_mem)
    have rows: "has_rows n df \<Longrightarrow> has_rows n (setitem df col v)"
      using has_rows_mem[OF _ mem] v by (simp add: has_rows_setitem)
    from Cons.IH[OF r] True rows show ?thesis
      by (auto simp: columns_setitem filter_setitem_other)
  qed
qed

lemma strftime_label: "strftime ''%b-%Y'' d = month_abbr (month d) @ ''-'' @ decimal (year d)"
  by simp

lemma frame_of_no_stamp:
  assumes "(key, col) \<in> set (standardize_columns (frame_of t))"
  shows "\<forall>c\<in>set col. \<forall>d. c \<noteq> Stamp d"
proof -
  from assms obtain fs where "col = map cell_of fs"
    by (auto simp: standardize_columns_def frame_of_def)
  then show ?thesis by (auto simp: cell_of_def split: field.splits)
qed

lemma label_cell_Stamp:
  "label_cell ''%b-%Y'' (Stamp d) = Text (month_abbr (month d) @ ''-'' @ decimal (year d))"
  by (simp add: label_cell_def)

lemma decimal_four:
  assumes "1000 \<le> n" "n \<le> 9999"
  shows "decimal n = [digit_char (n div 1000), digit_char (n div 100),
                      digit_char (n div 10), digit_char n]"
proof -
  from assms have a: "\<not> n < 10" "\<not> n div 10 < 10" "\<not> n div 10 div 10 < 10"
    "n div 10 div 10 div 10 < 10" by simp_all
  have b: "n div 10 div 10 = n div 100" "n div 100 div 10 = n div 1000"
    using div_mult2_eq[of n 10 10] div_mult2_eq[of n 100 10] by simp_all
  have "decimal n = decimal (n div 10) @ [digit_char n]"
    using a(1) by (subst decimal.simps) simp
  also have "decimal (n div 10) = decimal (n div 10 div 10) @ [digit_char (n div 10)]"
    using a(2) by (subst decimal.simps) simp
  also have "decimal (n div 10 div 10)
             = decimal (n div 10 div 10 div 10) @ [digit_char (n div 10 div 10)]"
    using a(3) by (subst decimal.simps) simp
  also have "decimal (n div 10 div 10 div 10) = [digit_char (n div 10 div 10 div 10)]"
    using a(4) by (subst decimal.simps) simp
  finally show ?thesis by (simp add: b)
qed

lemma load_with_Inr:
  assumes "load_with L E enc = Inr out"
  obtains t col v where "read_csv E enc = Inr t"
    and "getitem (standardize_columns (frame_of t)) ''order_date'' = Inr (Series col)"
    and "dates_of L col v" and "list_all printable v"
    and "ensure_numeric L num_cols
           (setitem (setitem (standardize_columns (frame_of t)) ''order_date'' v) ''month_year''
              (map (label_cell ''%b-%Y'') v)) = Inr out"
proof -
  from assms obtain t df1 sel labels where t: "read_csv E enc = Inr t"
    and c: "convert_dates L date_formats (standardize_columns (frame_of t)) = Inr df1"
    and g: "getitem df1 ''order_date'' = Inr sel"
    and s: "dt_strftime ''%b-%Y'' sel = Inr labels"
    and n: "ensure_numeric L num_cols (setitem df1 ''month_year'' labels) = Inr out"
    unfolding load_with_def and_then_Inr by blast
  from convert_dates_Inr[OF c] obtain col v
    where col: "getitem (standardize_columns (frame_of t)) ''order_date'' = Inr (Series col)"
      and df1: "df1 = setitem (standardize_columns (frame_of t)) ''order_date'' v"
      and d: "dates_of L col v" by blast
  from getitem_setitem_Series[OF col] df1 g have sel: "sel = Series v" by simp
  with s have "labels = map (label_cell ''%b-%Y'') v" and "list_all printable v"
    by (auto simp: dt_strftime_def split: if_splits)
  with t col d n df1 that show thesis by blast
qed

lemma try_encodings_Some:
  "try_encodings L E encs = (Some df, msgs) \<Longrightarrow> msgs = [] \<and> (\<exists>enc\<in>set encs. load_with L E enc = Inr df)"
  by (induction encs) (auto simp: all_failed_message_def split: sum.splits)

lemma try_encodings_cases:
  "(\<exists>df. try_encodings L E encs = (Some df, [])) \<or> try_encodings L E encs = (None, [all_failed_message])"
  by (induction encs) (auto split: sum.splits)

lemma try_encodings_None:
  "(\<forall>enc\<in>set encs. \<exists>e. load_with L E enc = Inl e) \<Longrightarrow> try_encodings L E encs = (None, [all_failed_message])"
  by (induction encs) auto

lemma load_data_Some:
  assumes "load_data L E = (Some df, msgs)"
  shows "path_exists E \<and> msgs = [] \<and> (\<exists>enc\<in>set encodings. load_with L E enc = Inr df)"
proof -
  from assms have p: "path_exists E" by (auto simp: load_data_def split: if_splits)
  with assms have "try_encodings L E encodings = (Some df, msgs)" by (simp add: load_data_def)
  from try_encodings_Some[OF this] p show ?thesis by simp
qed

lemma od_not_num: "''order_date'' \<notin> set num_cols" "''month_year'' \<notin> set num_cols"
  by (simp_all add: num_cols_def)

subsection \<open>The loader on the example files\<close>

lemma standard_names:
  "standard_name ''Order Date'' = ''order_date''"
  "standard_name ''Sales'' = ''sales''"
  "standard_name ''Region'' = ''region''"
  "standard_name ''region '' = ''region''"
  "standard_name ''Profit'' = ''profit''"
  by code_simp+

lemmas frame_defs =
  load_data_def encodings_def load_with_def and_then_def standardize_columns_def frame_of_def
  cell_of_def date_formats_def getitem_def setitem_def columns_def num_cols_def env_of_def

lemmas date_defs =
  to_datetime_format_def parse_cell_def nat_strings_def strptime_def
  clock_strings_def match_d_def match_m_def match_Y_def two_digits_def one_digit_def
  digit_val_def calendar_date_def python_year_def format_is_iso_def days_in_month_def
  leap_year_def dt_strftime_def datetimelike_def printable_def label_cell_def month_abbr_def
  decimal.simps digit_char_def to_numeric_coerce_def to_datetime_coerce_def coerce_cell_def

lemma load_dated:
  "load_data L (env_of dated_table) =
     (Some [(''order_date'', [Stamp \<lparr>year = 2023, month = 12, day = 31\<rparr>]),
            (''sales'', [numeric_cell L (Text ''12.5'')]),
            (''month_year'', [Text ''Dec-2023''])], [])"
  by (simp add: dated_table_def frame_defs date_defs standard_names)

lemma load_dated_plain:
  "load_data plain_library (env_of dated_table) = (Some dated_dataset, [])"
  by (simp add: load_dated dated_dataset_def numeric_cell_def plain_library_def)

lemma load_old:
  "load_data plain_library (env_of old_table) = (Some old_dataset, [])"
  by (simp add: old_table_def old_dataset_def frame_defs date_defs standard_names)

lemma load_undated:
  "load_data L (env_of undated_table) = (None, [all_failed_message])"
  by (simp add: undated_table_def frame_defs date_defs standard_names)

lemma load_two_region:
  "load_data L (env_of two_region_table) = (Some two_region_dataset, [])"
  by (simp add: two_region_table_def two_region_dataset_def frame_defs date_defs standard_names)

lemma load_store:
  "load_data plain_library (env_of store_table) = (Some store_dataset, [])"
  by (simp add: store_table_def store_dataset_def frame_defs date_defs standard_names
      plain_library_def numeric_cell_def)

subsection \<open>The date step against the specification; the region filter\<close>

lemma is_Inr_case: "(case r of Inr _ \<Rightarrow> True | Inl _ \<Rightarrow> False) = (\<exists>y. r = Inr y)"
  by (cases r) auto

lemma not_Inr_Inl: "(\<nexists>y. r = Inr y) = (\<exists>e. r = Inl e)"
  by (cases r) auto

lemma parse_cell_error: "parse_cell L fmt c = Inl e \<Longrightarrow> e = ValueError"
  by (auto simp: parse_cell_def split: cell.splits if_splits option.splits)

lemma to_datetime_format_full:
  "fully_parses L fmt col \<Longrightarrow>
     to_datetime_format L fmt (Series col) = Inr (parsed_with L fmt col)"
proof -
  assume "fully_parses L fmt col"
  then have "\<forall>c\<in>set col. \<exists>y. parse_cell L fmt c = Inr y"
    by (simp add: fully_parses_def list_all_iff is_Inr_case)
  from sequence_all_Inr[OF this, of Null] show ?thesis
    by (simp add: to_datetime_format_def parsed_with_def)
qed

lemma to_datetime_format_partial:
  "\<not> fully_parses L fmt col \<Longrightarrow> \<exists>e. to_datetime_format L fmt (Series col) = Inl e"
proof -
  assume "\<not> fully_parses L fmt col"
  then obtain c where c: "c \<in> set col" "\<nexists>y. parse_cell L fmt c = Inr y"
    by (auto simp: fully_parses_def list_all_iff is_Inr_case)
  from c(2) have "\<exists>e. parse_cell L fmt c = Inl e" by (cases "parse_cell L fmt c") auto
  with c(1) have "\<exists>c\<in>set col. \<exists>e. parse_cell L fmt c = Inl e" by blast
  from sequence_some_Inl[OF this] show ?thesis by (simp add: to_datetime_format_def)
qed

lemma convert_dates_spec:
  "getitem df ''order_date'' = Inr (Series col) \<Longrightarrow>
     convert_dates L fmts df =
       and_then (spec_dates L fmts col) (\<lambda>v. Inr (setitem df ''order_date'' v))"
proof (induction fmts)
  case Nil
  then show ?case by (simp add: and_then_def spec_dates_def)
next
  case (Cons fmt fmts)
  show ?case
  proof (cases "fully_parses L fmt col")
    case True
    with Cons.prems to_datetime_format_full[OF True] show ?thesis
      by (simp add: and_then_def spec_dates_def)
  next
    case False
    from to_datetime_format_partial[OF False] obtain e
      where "to_datetime_format L fmt (Series col) = Inl e" ..
    with Cons False show ?thesis by (simp add: and_then_def spec_dates_def)
  qed
qed

lemmas spec_defs = spec_dates_def fully_parses_def parsed_with_def

lemma select_rows_Cons:
  "select_rows (k # ks) (x # xs) = (if k then [x] else []) @ select_rows ks xs"
  by (simp add: select_rows_def)

lemma select_rows_nth:
  "length keep = length xs \<Longrightarrow>
     select_rows keep xs = map ((!) xs) (filter ((!) keep) [0..<length xs])"
proof (induction keep xs rule: list_induct2)
  case Nil
  then show ?case by (simp add: select_rows_def)
next
  case (Cons k ks x xs)
  have "[0..<Suc (length xs)] = 0 # map Suc [0..<length xs]"
    by (simp add: upt_conv_Cons map_Suc_upt del: upt_Suc)
  then have "map ((!) (x # xs)) (filter ((!) (k # ks)) [0..<length (x # xs)])
        = (if k then [x] else []) @ map ((!) xs) (filter ((!) ks) [0..<length xs])"
    by (simp add: filter_map comp_def del: upt_Suc)
  with Cons show ?case by (simp add: select_rows_Cons)
qed

lemma select_rows_isin: "select_rows (isin r sel) r = filter (\<lambda>x. x \<in> set sel) r"
  by (induction r) (simp_all add: select_rows_def isin_def)

lemma filter_isin:
  "filter ((!) (isin r sel)) [0..<length r] = filter (\<lambda>i. r ! i \<in> set sel) [0..<length r]"
  by (rule filter_cong) (simp_all add: isin_def)

lemma columns_boolean_index: "columns (boolean_index df keep) = columns df"
  by (simp add: columns_def boolean_index_def comp_def)

lemma filter_boolean_index:
  "filter (\<lambda>c. fst c = key) (boolean_index df keep)
     = map (\<lambda>c. (fst c, select_rows keep (snd c))) (filter (\<lambda>c. fst c = key) df)"
  by (simp add: boolean_index_def filter_map comp_def)

subsection \<open>Normalized names\<close>

lemma isspace_lower_char: "isspace (lower_char c) = isspace c"
proof -
  have "of_char (char_of (of_char c + 32 :: nat)) = (of_char c + 32 :: nat)"
    if "(of_char c :: nat) \<le> 222" 
    using that by simp
  then show ?thesis
    by (auto simp: isspace_def lower_char_def Let_def)
qed

lemma lower_char_idem: "lower_char (lower_char c) = lower_char c"
proof -
  have "of_char (char_of (of_char c + 32 :: nat)) = (of_char c + 32 :: nat)"
    if "(of_char c :: nat) \<le> 222" 
    using that by simp
  then show ?thesis
    by (auto simp: lower_char_def Let_def)
qed

lemma str_lower_idem: "str_lower (str_lower s) = str_lower s"
  by (simp add: str_lower_def lower_char_idem)

lemma str_strip_lower: "str_strip (str_lower s) = str_lower (str_strip s)"
proof -
  have c: "isspace \<circ> lower_char = isspace" by (rule ext) (simp add: isspace_lower_char)
  have a: "dropWhile isspace (map lower_char xs) = map lower_char (dropWhile isspace xs)" for xs
    by (simp add: dropWhile_map c)
  have "str_strip (map lower_char s)
        = rev (dropWhile isspace (rev (map lower_char (dropWhile isspace s))))"
    by (simp only: str_strip_def a)
  also have "\<dots> = rev (dropWhile isspace (map lower_char (rev (dropWhile isspace s))))"
    by (simp only: rev_map)
  also have "\<dots> = rev (map lower_char (dropWhile isspace (rev (dropWhile isspace s))))"
    by (simp only: a)
  also have "\<dots> = map lower_char (str_strip s)"
    by (simp only: rev_map str_strip_def)
  finally show ?thesis by (simp only: str_lower_def)
qed

lemma str_strip_idem: "str_strip (str_strip s) = str_strip s"
proof -
  let ?a = "dropWhile isspace s"
  let ?b = "dropWhile isspace (rev ?a)"
  have b: "dropWhile isspace ?b = ?b" by simp
  have "dropWhile isspace (rev ?b) = rev ?b"
  proof (cases "?b = []")
    case True
    have "dropWhile isspace (rev []) = rev ([] :: string)" by simp
    with True show ?thesis by (simp only:)
  next
    case False
    then have "set ?b \<noteq> {}" by simp
    have ra: "rev ?a = takeWhile isspace (rev ?a) @ ?b" by simp
    then have "?a = rev ?b @ rev (takeWhile isspace (rev ?a))"
      by (metis rev_append rev_rev_ident)
    moreover from False have "rev ?b \<noteq> []" by simp
    ultimately have "hd (rev ?b) = hd ?a" by (metis hd_append2)
    moreover have "?a \<noteq> []"
    proof
      assume e: "?a = []"
      have "dropWhile isspace (rev ([] :: string)) = []" by simp
      with e have "?b = []" by (simp only:)
      with False show False ..
    qed
    then have "\<not> isspace (hd ?a)" by (rule hd_dropWhile)
    ultimately have "\<not> isspace (hd (rev ?b))" by simp
    then show ?thesis by (simp add: dropWhile_eq_self_iff)
  qed
  then show ?thesis by (simp add: str_strip_def b)
qed

lemma canon_names:
  "str_lower ''profit'' = ''profit''" "str_strip ''profit'' = ''profit''"
  "str_lower ''discount'' = ''discount''" "str_strip ''discount'' = ''discount''"
  "str_lower ''order_date'' = ''order_date''" "str_strip ''order_date'' = ''order_date''"
  "str_lower ''sales'' = ''sales''" "str_strip ''sales'' = ''sales''"
  "str_lower ''region'' = ''region''" "str_strip ''region'' = ''region''"
  "str_lower ''month_year'' = ''month_year''" "str_strip ''month_year'' = ''month_year''"
  by code_simp+

lemma standard_name_clean:
  "str_lower (standard_name n) = standard_name n \<and> str_strip (standard_name n) = standard_name n"
proof (cases "map_of rename_table (str_lower (str_strip n))")
  case None
  then have "standard_name n = str_lower (str_strip n)" by (simp add: standard_name_def rename_def)
  then show ?thesis by (simp add: str_lower_idem str_strip_lower str_strip_idem)
next
  case (Some canon)
  then have "(str_lower (str_strip n), canon) \<in> set rename_table" by (rule map_of_SomeD)
  then have "canon \<in> {''profit'', ''discount'', ''order_date'', ''sales'', ''region''}"
    by (auto simp: rename_table_def)
  moreover from Some have "standard_name n = canon" by (simp add: standard_name_def rename_def)
  ultimately show ?thesis by (auto simp: canon_names)
qed

lemma load_with_columns:
  assumes "load_with L E enc = Inr out"
  obtains t where "read_csv E enc = Inr t"
    and "columns out = (if ''month_year'' \<in> set (map standard_name (map fst t))
                        then map standard_name (map fst t)
                        else map standard_name (map fst t) @ [''month_year''])"
proof -
  from assms obtain t col v where t: "read_csv E enc = Inr t"
    and n: "ensure_numeric L num_cols
           (setitem (setitem (standardize_columns (frame_of t)) ''order_date'' v) ''month_year''
              (map (label_cell ''%b-%Y'') v)) = Inr out"
    and g: "getitem (standardize_columns (frame_of t)) ''order_date'' = Inr (Series col)"
    by (rule load_with_Inr) blast
  from getitem_Series_mem[OF g]
  have "''order_date'' \<in> set (columns (standardize_columns (frame_of t)))"
    by (force simp: columns_def)
  with ensure_numeric_Inr[OF n]
  have "columns out = (if ''month_year'' \<in> set (map standard_name (map fst t))
                        then map standard_name (map fst t)
                        else map standard_name (map fst t) @ [''month_year''])"
    by (simp add: columns_setitem columns_standardize columns_frame_of)
  with t that show thesis by blast
qed

subsection \<open>The tabs\<close>

lemma at_most_one_getitem:
  assumes "at_most_one df key" "key \<in> set (columns df)"
  shows "\<exists>xs. getitem df key = Inr (Series xs)"
proof -
  from assms(2) have "filter (\<lambda>c. fst c = key) df \<noteq> []"
    by (auto simp: columns_def filter_empty_conv)
  with assms(1) obtain c where c: "filter (\<lambda>c. fst c = key) df = [c]"
    by (cases "filter (\<lambda>c. fst c = key) df") (auto simp: at_most_one_def)
  then show ?thesis by (simp add: getitem_def)
qed

lemma getitem_present:
  assumes "key \<in> set (columns df)"
  shows "\<exists>sel. getitem df key = Inr sel"
proof (cases "getitem df key")
  case (Inl e)
  from getitem_Inl[OF this] assms show ?thesis by simp
next
  case (Inr sel)
  then show ?thesis by simp
qed

lemma groupby_sum_ok:
  assumes "at_most_one df key" "key \<in> set (columns df)" "col \<in> set (columns df)"
  shows "groupby_sum df key col = Inr ()"
proof -
  from at_most_one_getitem[OF assms(1,2)] obtain ks where "getitem df key = Inr (Series ks)" ..
  moreover from getitem_present[OF assms(3)] obtain sel where "getitem df col = Inr sel" ..
  ultimately show ?thesis by (simp add: groupby_sum_def and_then_def)
qed

lemma available_regions_ok:
  assumes "at_most_one df ''region''"
  shows "\<exists>available. available_regions df = Inr available"
proof (cases "''region'' \<in> set (columns df)")
  case True
  from at_most_one_getitem[OF assms True] obtain r
    where "getitem df ''region'' = Inr (Series r)" ..
  with True show ?thesis by (simp add: available_regions_def and_then_def)
next
  case False
  then show ?thesis by (simp add: available_regions_def)
qed

lemma at_most_one_boolean_index:
  "at_most_one (boolean_index df keep) key = at_most_one df key"
  by (simp add: at_most_one_def filter_boolean_index)

lemma filtered_df_ok:
  assumes "at_most_one df ''region''"
  shows "\<exists>fdf. filtered_df df selected = Inr fdf \<and> columns fdf = columns df \<and>
           (\<forall>key. at_most_one fdf key = at_most_one df key)"
proof (cases "''region'' \<in> set (columns df)")
  case True
  from at_most_one_getitem[OF assms True] obtain r
    where "getitem df ''region'' = Inr (Series r)" ..
  with True show ?thesis
    by (simp add: filtered_df_def and_then_def columns_boolean_index at_most_one_boolean_index)
next
  case False
  then show ?thesis by (simp add: filtered_df_def)
qed

lemma tab1_ok:
  "at_most_one fdf ''month_year'' \<Longrightarrow> ''month_year'' \<in> set (columns fdf) \<Longrightarrow>
     tab1 fdf = (if ''sales'' \<in> set (columns fdf)
                 then [Subheader MonthlySalesTrend, Pyplot MonthlySalesTrend]
                 else [Warning ''Required columns for sales trend not available''], None)"
  by (simp add: tab1_def groupby_sum_ok)

lemma tab2_ok:
  "at_most_one fdf ''region'' \<Longrightarrow>
     tab2 fdf = (if ''region'' \<in> set (columns fdf) \<and> ''sales'' \<in> set (columns fdf)
                 then [Subheader SalesByRegion, Pyplot SalesByRegion]
                 else [Warning ''Required columns for regional analysis not available''], None)"
  by (simp add: tab2_def groupby_sum_ok)

lemma tab3_no_discount:
  "''discount'' \<notin> set (columns fdf) \<Longrightarrow>
     tab3 fdf = ([Warning (''Missing columns for correlation analysis: '' @
                   (if ''profit'' \<in> set (columns fdf) then ''discount'' else ''profit, discount''))],
                 None)"
  by (simp add: tab3_def)

section \<open>The claims\<close>

text \<open>
  Claim C1. A file that exists and is decodable is said to fail only for absence or for
  undecodable content, anything else degrading to null fields. The loader evaluated on a
  file that is present and reads well under every encoding, but has no date column:
  it returns None with the message of a total encoding failure.
\<close>

theorem C1_undated_file_fails:
  "path_exists (env_of undated_table) \<and>
   read_csv (env_of undated_table) ''utf-8'' = Inr undated_table \<and>
   ''utf-8'' \<in> set encodings \<and>
   load_data L (env_of undated_table) = (None, [all_failed_message])"
  by (simp add: load_undated) (simp add: env_of_def encodings_def)

text \<open>
  Claim C2. A dataset returned by \<open>load_data\<close> was read under one of the encodings, and
  has as many rows as the table that was read: every column of the dataset is as long
  as the columns of the table.
\<close>

theorem C2_row_count:
  assumes "load_data L E = (Some out, msgs)"
  shows "\<exists>enc\<in>set encodings. \<exists>t. read_csv E enc = Inr t \<and> t \<noteq> [] \<and> out \<noteq> [] \<and>
           (\<forall>n. has_rows n t \<longrightarrow> has_rows n out)"
proof -
  from load_data_Some[OF assms] obtain enc where enc: "enc \<in> set encodings"
    and lw: "load_with L E enc = Inr out" by blast
  from lw obtain t col v where t: "read_csv E enc = Inr t"
    and g: "getitem (standardize_columns (frame_of t)) ''order_date'' = Inr (Series col)"
    and d: "dates_of L col v"
    and n: "ensure_numeric L num_cols
           (setitem (setitem (standardize_columns (frame_of t)) ''order_date'' v) ''month_year''
              (map (label_cell ''%b-%Y'') v)) = Inr out"
    by (rule load_with_Inr) blast
  let ?df0 = "standardize_columns (frame_of t)"
  from getitem_Series_mem[OF g] have mem: "(''order_date'', col) \<in> set ?df0" .
  then have "t \<noteq> []" by (auto simp: standardize_columns_def frame_of_def)
  moreover have "out \<noteq> []"
  proof -
    from ensure_numeric_Inr[OF n] have "columns out = columns (setitem (setitem ?df0 ''order_date'' v) ''month_year'' (map (label_cell ''%b-%Y'') v))"
      by blast
    then have "''month_year'' \<in> set (columns out)" by (simp add: columns_setitem)
    then show ?thesis by (auto simp: columns_def)
  qed
  moreover have "has_rows k out" if h: "has_rows k t" for k
  proof -
    from h have h0: "has_rows k ?df0" by (simp add: has_rows_standardize has_rows_frame_of)
    from has_rows_mem[OF h0 mem] d have lv: "length v = k" by (simp add: dates_of_def)
    from h0 lv have "has_rows k (setitem (setitem ?df0 ''order_date'' v) ''month_year'' (map (label_cell ''%b-%Y'') v))"
      by (simp add: has_rows_setitem)
    with ensure_numeric_Inr[OF n] show ?thesis by blast
  qed
  ultimately show ?thesis using enc t by blast
qed

theorem C2_row_count_witness:
  "load_data plain_library (env_of store_table) = (Some store_dataset, []) \<and>
   has_rows 3 store_table \<and> has_rows 3 store_dataset \<and> store_dataset \<noteq> []"
proof -
  have t: "has_rows 3 store_table" by (simp add: has_rows_def store_table_def)
  from C2_row_count[OF load_store] obtain t' where
    "read_csv (env_of store_table) ''utf-8'' = Inr t' \<or> True"
    and r: "\<exists>enc. read_csv (env_of store_table) enc = Inr t' \<and> (\<forall>n. has_rows n t' \<longrightarrow> has_rows n store_dataset)"
    and "store_dataset \<noteq> []"
    by blast
  from r have "t' = store_table" by (auto simp: env_of_def)
  with r t have "has_rows 3 store_dataset" by blast
  with t load_store \<open>store_dataset \<noteq> []\<close> show ?thesis by simp
qed

text \<open>
  Claim C3, amended. In a dataset returned by \<open>load_data\<close> the column \<open>order_date\<close> is
  one column of timestamps; every column named \<open>month_year\<close> is as long and is null
  exactly in the rows where the date is null. In the other rows it holds the
  abbreviated month name, a hyphen and the year of the date in decimal, where the year
  lies between 1 and 9999 and is written without leading zeros: with four digits from
  the year 1000 on, with fewer before. (The date is a date of the calendar when the
  clock of the library shows one.)
\<close>

theorem C3_month_year:
  assumes "load_data L E = (Some out, msgs)"
  shows "\<exists>dates. getitem out ''order_date'' = Inr (Series dates) \<and>
           ''month_year'' \<in> set (columns out) \<and>
           (\<forall>c\<in>set out. fst c = ''month_year'' \<longrightarrow>
              length (snd c) = length dates \<and>
              (\<forall>i<length dates.
                 (snd c ! i = Null \<longleftrightarrow> dates ! i = Null) \<and>
                 (dates ! i \<noteq> Null \<longrightarrow>
                    (\<exists>d. dates ! i = Stamp d \<and> 1 \<le> year d \<and> year d \<le> 9999 \<and>
                         (calendar_date (today L) \<longrightarrow> calendar_date d) \<and>
                         snd c ! i = Text (month_abbr (month d) @ ''-'' @ decimal (year d)) \<and>
                         (1000 \<le> year d \<longrightarrow>
                            decimal (year d) =
                              [digit_char (year d div 1000), digit_char (year d div 100),
                               digit_char (year d div 10), digit_char (year d)])))))"
proof -
  from load_data_Some[OF assms] obtain enc where enc: "enc \<in> set encodings"
    and lw: "load_with L E enc = Inr out" by blast
  from lw obtain t col v where t: "read_csv E enc = Inr t"
    and g: "getitem (standardize_columns (frame_of t)) ''order_date'' = Inr (Series col)"
    and d: "dates_of L col v" and pr: "list_all printable v"
    and n: "ensure_numeric L num_cols
           (setitem (setitem (standardize_columns (frame_of t)) ''order_date'' v) ''month_year''
              (map (label_cell ''%b-%Y'') v)) = Inr out"
    by (rule load_with_Inr)
  let ?df0 = "standardize_columns (frame_of t)"
  let ?df1 = "setitem ?df0 ''order_date'' v"
  let ?labels = "map (label_cell ''%b-%Y'') v"
  let ?df2 = "setitem ?df1 ''month_year'' ?labels"
  from ensure_numeric_Inr[OF n] have cols: "columns out = columns ?df2"
    and same: "\<And>j. j \<notin> set num_cols \<Longrightarrow> filter (\<lambda>c. fst c = j) out = filter (\<lambda>c. fst c = j) ?df2"
    by blast+
  have "getitem ?df2 ''order_date'' = Inr (Series v)"
    using getitem_setitem_Series[OF g] by (simp add: getitem_setitem_other)
  then have od: "getitem out ''order_date'' = Inr (Series v)"
    using same[OF od_not_num(1)] by (simp add: getitem_def)
  have my: "''month_year'' \<in> set (columns out)" using cols by (simp add: columns_setitem)
  have lab: "snd c = ?labels" if c: "c \<in> set out" "fst c = ''month_year''" for c
  proof -
    from c have "c \<in> set (filter (\<lambda>c. fst c = ''month_year'') out)" by simp
    then have "c \<in> set (filter (\<lambda>c. fst c = ''month_year'') ?df2)"
      using same[OF od_not_num(2)] by simp
    then show ?thesis by (auto simp: filter_setitem_same split: if_splits)
  qed
  from frame_of_no_stamp[OF getitem_Series_mem[OF g]] d
  have dl: "list_all datetimelike v"
    and cal: "\<And>d. calendar_date (today L) \<Longrightarrow> Stamp d \<in> set v \<Longrightarrow> calendar_date d"
    by (auto simp: dates_of_def)
  have row: "(?labels ! i = Null \<longleftrightarrow> v ! i = Null) \<and>
             (v ! i \<noteq> Null \<longrightarrow>
                (\<exists>d. v ! i = Stamp d \<and> 1 \<le> year d \<and> year d \<le> 9999 \<and>
                     (calendar_date (today L) \<longrightarrow> calendar_date d) \<and>
                     ?labels ! i = Text (month_abbr (month d) @ ''-'' @ decimal (year d)) \<and>
                     (1000 \<le> year d \<longrightarrow>
                        decimal (year d) =
                          [digit_char (year d div 1000), digit_char (year d div 100),
                           digit_char (year d div 10), digit_char (year d)])))"
    if i: "i < length v" for i
  proof -
    from dl i have dt: "datetimelike (v ! i)" by (simp add: list_all_length)
    from pr i have p: "printable (v ! i)" by (simp add: list_all_length)
    from i have mem: "v ! i \<in> set v" by simp
    show ?thesis
    proof (cases "v ! i")
      case (Stamp d)
      with p have y: "1 \<le> year d" "year d \<le> 9999" by (simp_all add: printable_def python_year_def)
      from Stamp mem cal have "calendar_date (today L) \<longrightarrow> calendar_date d" by auto
      moreover from y have "1000 \<le> year d \<longrightarrow>
          decimal (year d) = [digit_char (year d div 1000), digit_char (year d div 100),
                              digit_char (year d div 10), digit_char (year d)]"
        by (simp add: decimal_four)
      ultimately show ?thesis using Stamp i y by (simp add: label_cell_Stamp)
    qed (use dt i in \<open>simp_all add: label_cell_def datetimelike_def\<close>)
  qed
  have col: "length (snd c) = length v \<and>
              (\<forall>i<length v.
                 (snd c ! i = Null \<longleftrightarrow> v ! i = Null) \<and>
                 (v ! i \<noteq> Null \<longrightarrow>
                    (\<exists>d. v ! i = Stamp d \<and> 1 \<le> year d \<and> year d \<le> 9999 \<and>
                         (calendar_date (today L) \<longrightarrow> calendar_date d) \<and>
                         snd c ! i = Text (month_abbr (month d) @ ''-'' @ decimal (year d)) \<and>
                         (1000 \<le> year d \<longrightarrow>
                            decimal (year d) =
                              [digit_char (year d div 1000), digit_char (year d div 100),
                               digit_char (year d div 10), digit_char (year d)]))))"
    if c: "c \<in> set out" "fst c = ''month_year''" for c
    using lab[OF c] row by simp
  from od my col show ?thesis by blast
qed

text \<open>
  Claim C3, as stated, fails on the four digits: the date \<^verbatim>\<open>15/06/0999\<close> is read with
  the first format, and its label is \<^verbatim>\<open>Jun-999\<close>, with a year of three digits, not
  \<^verbatim>\<open>Jun-0999\<close>.
\<close>

theorem C3_month_year_counterexample:
  "load_data plain_library (env_of old_table) = (Some old_dataset, []) \<and>
   getitem old_dataset ''order_date''
     = Inr (Series [Stamp \<lparr>year = 999, month = 6, day = 15\<rparr>]) \<and>
   getitem old_dataset ''month_year'' = Inr (Series [Text ''Jun-999'']) \<and>
   Text ''Jun-999'' \<noteq> Text (month_abbr 6 @ ''-'' @ ''0999'')"
  by (simp add: load_old) (simp add: old_dataset_def getitem_def month_abbr_def)

theorem C3_month_year_witness:
  "load_data plain_library (env_of store_table) = (Some store_dataset, []) \<and>
   getitem store_dataset ''order_date''
     = Inr (Series [Stamp \<lparr>year = 2023, month = 12, day = 31\<rparr>, Null,
                    Stamp \<lparr>year = 2024, month = 1, day = 2\<rparr>]) \<and>
   fst (store_dataset ! 4) = ''month_year'' \<and>
   snd (store_dataset ! 4) ! 0 = Text (month_abbr 12 @ ''-'' @ decimal 2023) \<and>
   decimal 2023 = ''2023'' \<and>
   snd (store_dataset ! 4) ! 1 = Null"
proof -
  from C3_month_year[OF load_store] obtain dates where
    g: "getitem store_dataset ''order_date'' = Inr (Series dates)"
    and c: "\<forall>c\<in>set store_dataset. fst c = ''month_year'' \<longrightarrow>
              length (snd c) = length dates \<and>
              (\<forall>i<length dates.
                 (snd c ! i = Null \<longleftrightarrow> dates ! i = Null) \<and>
                 (dates ! i \<noteq> Null \<longrightarrow>
                    (\<exists>d. dates ! i = Stamp d \<and> 1 \<le> year d \<and> year d \<le> 9999 \<and>
                         (calendar_date (today plain_library) \<longrightarrow> calendar_date d) \<and>
                         snd c ! i = Text (month_abbr (month d) @ ''-'' @ decimal (year d)) \<and>
                         (1000 \<le> year d \<longrightarrow>
                            decimal (year d) =
                              [digit_char (year d div 1000), digit_char (year d div 100),
                               digit_char (year d div 10), digit_char (year d)]))))"
    by blast
  from g have d: "dates = [Stamp \<lparr>year = 2023, month = 12, day = 31\<rparr>, Null,
               Stamp \<lparr>year = 2024, month = 1, day = 2\<rparr>]"
    by (simp add: store_dataset_def getitem_def)
  let ?c = "store_dataset ! 4"
  have m: "?c \<in> set store_dataset" "fst ?c = ''month_year''"
    by (simp_all add: store_dataset_def)
  from c m have r: "\<forall>i<length dates.
                 (snd ?c ! i = Null \<longleftrightarrow> dates ! i = Null) \<and>
                 (dates ! i \<noteq> Null \<longrightarrow>
                    (\<exists>d. dates ! i = Stamp d \<and> 1 \<le> year d \<and> year d \<le> 9999 \<and>
                         (calendar_date (today plain_library) \<longrightarrow> calendar_date d) \<and>
                         snd ?c ! i = Text (month_abbr (month d) @ ''-'' @ decimal (year d)) \<and>
                         (1000 \<le> year d \<longrightarrow>
                            decimal (year d) =
                              [digit_char (year d div 1000), digit_char (year d div 100),
                               digit_char (year d div 10), digit_char (year d)])))"
    by blast
  from d have l: "0 < length dates" "1 < length dates" by simp_all
  from r l(1) have "dates ! 0 \<noteq> Null \<longrightarrow>
        (\<exists>d. dates ! 0 = Stamp d \<and>
             snd ?c ! 0 = Text (month_abbr (month d) @ ''-'' @ decimal (year d)) \<and>
             (1000 \<le> year d \<longrightarrow>
                decimal (year d) =
                  [digit_char (year d div 1000), digit_char (year d div 100),
                   digit_char (year d div 10), digit_char (year d)]))"
    by blast
  with d have first: "snd ?c ! 0 = Text (month_abbr 12 @ ''-'' @ decimal 2023)"
    and dec: "decimal 2023 = [digit_char (2023 div 1000), digit_char (2023 div 100),
                              digit_char (2023 div 10), digit_char 2023]"
    by auto
  from dec have four: "decimal 2023 = ''2023''" by (simp add: digit_char_def)
  from r l(2) have "(snd ?c ! 1 = Null) = (dates ! 1 = Null)" by blast
  with d have "snd ?c ! 1 = Null" by simp
  with first four g d m(2) load_store show ?thesis by simp
qed

text \<open>
  Claim C6. Whatever the environment, a call of \<open>load_data\<close> returns: either a dataset
  and no error message, or None with one error message, that of the missing file or
  that of the failed encodings. No exception leaves the call.
\<close>

theorem C6_load_data_total:
  "(\<exists>df. load_data L E = (Some df, [])) \<or>
   load_data L E = (None, [not_found_message]) \<or>
   load_data L E = (None, [all_failed_message])"
  using try_encodings_cases[of L E encodings] by (auto simp: load_data_def)

theorem C6_load_data_total_witness:
  "(\<exists>df. load_data plain_library (env_of dated_table) = (Some df, [])) \<and>
   load_data plain_library missing_file = (None, [not_found_message]) \<and>
   load_data plain_library (env_of undated_table) = (None, [all_failed_message])"
proof -
  have a: "not_found_message \<noteq> all_failed_message"
    by (simp add: not_found_message_def all_failed_message_def)
  have "load_data plain_library missing_file \<noteq> (None, [all_failed_message])"
    using a by (simp add: load_data_def missing_file_def)
  moreover have "\<nexists>df. load_data plain_library missing_file = (Some df, [])"
    by (simp add: load_data_def missing_file_def)
  ultimately have "load_data plain_library missing_file = (None, [not_found_message])"
    using C6_load_data_total[of plain_library missing_file] by blast
  then show ?thesis by (simp add: load_dated load_undated)
qed

text \<open>
  Claim C8. When the path does not exist, \<open>load_data\<close> returns None with the message
  that names the path \<^verbatim>\<open>data/superstore.csv\<close>, and the run of the script shows that one
  error message and nothing else (no chart) and ends at \<^verbatim>\<open>st.stop()\<close>, not with an
  exception.
\<close>

theorem C8_missing_file:
  assumes "\<not> path_exists E"
  shows "load_data L E = (None, [not_found_message]) \<and>
         not_found_message = ''Error: File '' @ [CHR 0x27] @ ''data/superstore.csv'' @ [CHR 0x27] @ '' not found'' \<and>
         dashboard L E choice = \<lparr>page = [Error not_found_message], status = Stopped\<rparr>"
  using assms by (simp add: load_data_def dashboard_def not_found_message_def csv_path_def)

theorem C8_missing_file_witness:
  "\<not> path_exists missing_file \<and>
   load_data plain_library missing_file = (None, [not_found_message]) \<and>
   dashboard plain_library missing_file None = \<lparr>page = [Error not_found_message], status = Stopped\<rparr>"
proof -
  have h: "\<not> path_exists missing_file" by (simp add: missing_file_def)
  from C8_missing_file[OF h, of plain_library None] h show ?thesis by simp
qed

text \<open>
  Claim C10. When the file exists and no table read from it, under any encoding, has a
  header that normalizes to \<open>order_date\<close>, every attempt raises KeyError in the date
  step, the encoding loop consumes it, and \<open>load_data\<close> returns None with the message of
  the failed encodings: the same result as when no encoding can read the file.
\<close>

theorem C10_no_date_column:
  assumes "path_exists E"
    and "\<forall>enc\<in>set encodings. \<forall>t. read_csv E enc = Inr t \<longrightarrow> ''order_date'' \<notin> set (map standard_name (map fst t))"
  shows "(\<forall>enc\<in>set encodings. \<forall>t. read_csv E enc = Inr t \<longrightarrow>
            convert_dates L date_formats (standardize_columns (frame_of t)) = Inl KeyError \<and>
            load_with L E enc = Inl KeyError) \<and>
         load_data L E = (None, [all_failed_message])"
proof -
  have each: "convert_dates L date_formats (standardize_columns (frame_of t)) = Inl KeyError \<and>
              load_with L E enc = Inl KeyError"
    if "enc \<in> set encodings" "read_csv E enc = Inr t" for enc t
  proof -
    from assms(2) that have "''order_date'' \<notin> set (columns (standardize_columns (frame_of t)))"
      by (simp add: columns_standardize columns_frame_of)
    then have "convert_dates L date_formats (standardize_columns (frame_of t)) = Inl KeyError"
      by (rule convert_dates_absent)
    with that(2) show ?thesis by (simp add: load_with_def and_then_def)
  qed
  have "\<exists>e. load_with L E enc = Inl e" if "enc \<in> set encodings" for enc
  proof (cases "read_csv E enc")
    case (Inl e)
    then show ?thesis by (simp add: load_with_def and_then_def)
  next
    case (Inr t)
    with each that show ?thesis by blast
  qed
  then have "try_encodings L E encodings = (None, [all_failed_message])"
    by (intro try_encodings_None) blast
  with assms(1) each show ?thesis by (simp add: load_data_def)
qed

theorem C10_no_date_column_witness:
  "path_exists (env_of undated_table) \<and>
   read_csv (env_of undated_table) ''utf-8'' = Inr undated_table \<and>
   map standard_name (map fst undated_table) = [''sales''] \<and>
   load_with plain_library (env_of undated_table) ''utf-8'' = Inl KeyError \<and>
   load_data plain_library (env_of undated_table) = (None, [all_failed_message])"
proof -
  have p: "path_exists (env_of undated_table)" by (simp add: env_of_def)
  have n: "map standard_name (map fst undated_table) = [''sales'']"
    by (simp add: undated_table_def standard_names)
  have r: "\<forall>enc\<in>set encodings. \<forall>t. read_csv (env_of undated_table) enc = Inr t \<longrightarrow>
             ''order_date'' \<notin> set (map standard_name (map fst t))"
    using n by (simp add: env_of_def)
  have u: "''utf-8'' \<in> set encodings" by (simp add: encodings_def)
  have t: "read_csv (env_of undated_table) ''utf-8'' = Inr undated_table" by (simp add: env_of_def)
  from C10_no_date_column[OF p r, of plain_library] u t p n show ?thesis by blast
qed

text \<open>
  Claim C4. The formats are day/month/year, month/day/year and year-month-day, in this
  order. On a frame with one \<open>order_date\<close> column, the date loop of the source gives
  what the specification words: the column parsed with the first format that parses
  every value, or else what the format-less conversion gives. And on the file with the header
  \<^verbatim>\<open>Order Date\<close> and the date \<^verbatim>\<open>31/12/2023\<close>, the dataset has the column
  \<open>order_date\<close> with the date 31 December 2023 and \<open>month_year\<close> is \<^verbatim>\<open>Dec-2023\<close>.
\<close>

theorem C4_date_formats:
  "date_formats = [''%d/%m/%Y'', ''%m/%d/%Y'', ''%Y-%m-%d''] \<and>
   (\<forall>df col. getitem df ''order_date'' = Inr (Series col) \<longrightarrow>
      convert_dates L date_formats df =
        and_then (spec_dates L date_formats col) (\<lambda>v. Inr (setitem df ''order_date'' v))) \<and>
   load_data L (env_of dated_table) =
     (Some [(''order_date'', [Stamp \<lparr>year = 2023, month = 12, day = 31\<rparr>]),
            (''sales'', [numeric_cell L (Text ''12.5'')]),
            (''month_year'', [Text ''Dec-2023''])], [])"
proof (intro conjI allI impI)
  show "date_formats = [''%d/%m/%Y'', ''%m/%d/%Y'', ''%Y-%m-%d'']" by (simp add: date_formats_def)
next
  fix df col assume "getitem df ''order_date'' = Inr (Series col)"
  then show "convert_dates L date_formats df =
        and_then (spec_dates L date_formats col) (\<lambda>v. Inr (setitem df ''order_date'' v))"
    by (rule convert_dates_spec)
next
  show "load_data L (env_of dated_table) =
     (Some [(''order_date'', [Stamp \<lparr>year = 2023, month = 12, day = 31\<rparr>]),
            (''sales'', [numeric_cell L (Text ''12.5'')]),
            (''month_year'', [Text ''Dec-2023''])], [])"
    by (rule load_dated)
qed

theorem C4_date_formats_witness:
  "getitem [(''order_date'', [Text ''01/02/2023'', Null])] ''order_date''
     = Inr (Series [Text ''01/02/2023'', Null]) \<and>
   convert_dates plain_library date_formats [(''order_date'', [Text ''01/02/2023'', Null])]
     = Inr [(''order_date'', [Stamp \<lparr>year = 2023, month = 2, day = 1\<rparr>, Null])] \<and>
   convert_dates plain_library date_formats [(''order_date'', [Text ''12/31/2023''])]
     = Inr [(''order_date'', [Stamp \<lparr>year = 2023, month = 12, day = 31\<rparr>])] \<and>
   convert_dates plain_library date_formats [(''order_date'', [Text ''2023-12-31'', Text ''soon''])]
     = Inr [(''order_date'', [Null, Null])]"
proof -
  have g: "getitem [(''order_date'', col)] ''order_date'' = Inr (Series col)" for col
    by (simp add: getitem_def)
  have a: "spec_dates plain_library date_formats [Text ''01/02/2023'', Null]
             = Inr [Stamp \<lparr>year = 2023, month = 2, day = 1\<rparr>, Null]"
    by (simp add: spec_defs date_formats_def date_defs)
  have b: "spec_dates plain_library date_formats [Text ''12/31/2023'']
             = Inr [Stamp \<lparr>year = 2023, month = 12, day = 31\<rparr>]"
    by (simp add: spec_defs date_formats_def date_defs)
  have c: "spec_dates plain_library date_formats [Text ''2023-12-31'', Text ''soon'']
             = Inr [Null, Null]"
    by (simp add: spec_defs date_formats_def date_defs plain_library_def)
  from C4_date_formats[of plain_library] g a b c show ?thesis
    by (simp add: setitem_def columns_def and_then_def)
qed

text \<open>
  Claim C5, amended. On a dataset that has one \<open>region\<close> column, the filter returns, in
  every column, exactly the rows whose region is in the selected set, in their order
  (so the regions left are the selected ones, and the empty set leaves zero rows).
  A dataset without a region column is returned unfiltered (line 92, \<^verbatim>\<open>else df\<close>).
\<close>

theorem C5_region_filter:
  "(\<forall>r. getitem df ''region'' = Inr (Series r) \<longrightarrow> has_rows (length r) df \<longrightarrow>
      (\<exists>out. filtered_df df selected = Inr out \<and>
         columns out = columns df \<and>
         getitem out ''region'' = Inr (Series (filter (\<lambda>x. x \<in> set selected) r)) \<and>
         (\<forall>k<length df. snd (out ! k) =
            map ((!) (snd (df ! k))) (filter (\<lambda>i. r ! i \<in> set selected) [0..<length r])) \<and>
         (selected = [] \<longrightarrow> has_rows 0 out))) \<and>
   (''region'' \<notin> set (columns df) \<longrightarrow> filtered_df df selected = Inr df)"
proof (intro conjI allI impI)
  fix r assume g: "getitem df ''region'' = Inr (Series r)" and h: "has_rows (length r) df"
  let ?out = "boolean_index df (isin r selected)"
  from getitem_Series_mem[OF g] have "''region'' \<in> set (columns df)"
    by (force simp: columns_def)
  with g have f: "filtered_df df selected = Inr ?out" by (simp add: filtered_df_def and_then_def)
  have reg: "getitem ?out ''region'' = Inr (Series (filter (\<lambda>x. x \<in> set selected) r))"
    using g by (simp add: getitem_Series filter_boolean_index select_rows_isin)
  have each: "snd (?out ! k) =
      map ((!) (snd (df ! k))) (filter (\<lambda>i. r ! i \<in> set selected) [0..<length r])"
    if k: "k < length df" for k
  proof -
    from k have "df ! k \<in> set df" by simp
    with h have l: "length (snd (df ! k)) = length r" by (auto simp: has_rows_def list_all_iff)
    then have "length (isin r selected) = length (snd (df ! k))" by (simp add: isin_def)
    from select_rows_nth[OF this] l k show ?thesis
      by (simp add: boolean_index_def filter_isin)
  qed
  have "has_rows 0 ?out" if "selected = []"
    using that
    by (auto simp: has_rows_def boolean_index_def list_all_iff select_rows_def isin_def
        filter_empty_conv dest: set_zip_leftD)
  with f reg each show "\<exists>out. filtered_df df selected = Inr out \<and>
         columns out = columns df \<and>
         getitem out ''region'' = Inr (Series (filter (\<lambda>x. x \<in> set selected) r)) \<and>
         (\<forall>k<length df. snd (out ! k) =
            map ((!) (snd (df ! k))) (filter (\<lambda>i. r ! i \<in> set selected) [0..<length r])) \<and>
         (selected = [] \<longrightarrow> has_rows 0 out)"
    by (auto simp: columns_boolean_index)
next
  assume "''region'' \<notin> set (columns df)"
  then show "filtered_df df selected = Inr df" by (simp add: filtered_df_def)
qed

text \<open>
  Claim C5, as stated for every normalized dataset, fails on a dataset without a region
  column: the dataset loaded from the dated file has one row, and filtering it by the
  empty set returns it whole, not zero rows.
\<close>

theorem C5_region_filter_counterexample:
  "load_data plain_library (env_of dated_table) = (Some dated_dataset, []) \<and>
   filtered_df dated_dataset [] = Inr dated_dataset \<and>
   has_rows 1 dated_dataset \<and> \<not> has_rows 0 dated_dataset"
  by (simp add: load_dated_plain) (simp add: dated_dataset_def filtered_df_def columns_def has_rows_def)

theorem C5_region_filter_witness:
  "getitem store_dataset ''region'' = Inr (Series [Text ''East'', Text ''Central'', Text ''West'']) \<and>
   has_rows 3 store_dataset \<and>
   ''region'' \<notin> set (columns dated_dataset) \<and>
   filtered_df dated_dataset [Text ''East''] = Inr dated_dataset \<and>
   (\<exists>out. filtered_df store_dataset [Text ''East'', Text ''West''] = Inr out \<and>
      getitem out ''region'' = Inr (Series [Text ''East'', Text ''West'']) \<and>
      snd (out ! 4) = [Text ''Dec-2023'', Text ''Jan-2024'']) \<and>
   (\<exists>out. filtered_df store_dataset [] = Inr out \<and> has_rows 0 out)"
proof -
  let ?r = "[Text ''East'', Text ''Central'', Text ''West'']"
  have g: "getitem store_dataset ''region'' = Inr (Series ?r)"
    by (simp add: store_dataset_def getitem_def)
  have h: "has_rows (length ?r) store_dataset" by (simp add: store_dataset_def has_rows_def)
  have n: "''region'' \<notin> set (columns dated_dataset)" by (simp add: dated_dataset_def columns_def)
  have i: "filter (\<lambda>i. ?r ! i \<in> set [Text ''East'', Text ''West'']) [0..<length ?r] = [0, 2]"
    by (simp add: upt_conv_Cons)
  have k: "4 < length store_dataset" "snd (store_dataset ! 4) = [Text ''Dec-2023'', Null, Text ''Jan-2024'']"
    by (simp_all add: store_dataset_def)
  from C5_region_filter[of store_dataset "[Text ''East'', Text ''West'']"] g h
  obtain out where o: "filtered_df store_dataset [Text ''East'', Text ''West''] = Inr out"
    and "getitem out ''region'' = Inr (Series (filter (\<lambda>x. x \<in> set [Text ''East'', Text ''West'']) ?r))"
    and "\<forall>k<length store_dataset. snd (out ! k) =
            map ((!) (snd (store_dataset ! k))) (filter (\<lambda>i. ?r ! i \<in> set [Text ''East'', Text ''West'']) [0..<length ?r])"
    by blast
  with i k have first: "getitem out ''region'' = Inr (Series [Text ''East'', Text ''West'']) \<and>
      snd (out ! 4) = [Text ''Dec-2023'', Text ''Jan-2024'']"
    by simp
  from C5_region_filter[of store_dataset "[]"] g h
  have second: "\<exists>out. filtered_df store_dataset [] = Inr out \<and> has_rows 0 out" by blast
  from C5_region_filter[of dated_dataset "[Text ''East'']"] n
  have third: "filtered_df dated_dataset [Text ''East''] = Inr dated_dataset" by blast
  have h3: "has_rows 3 store_dataset" by (simp add: store_dataset_def has_rows_def)
  from g h3 n o first second third show ?thesis by simp
qed

text \<open>
  Claim C7, amended. The column names of a dataset returned by \<open>load_data\<close> are
  lower-case and whitespace-trimmed; they are unique when the headers of the table
  read are distinct after normalization. The loader has no check for collisions: a
  dataset is always returned without any message.
\<close>

theorem C7_column_names:
  assumes "load_data L E = (Some out, msgs)"
  shows "msgs = [] \<and>
         (\<forall>name\<in>set (columns out). str_lower name = name \<and> str_strip name = name) \<and>
         (\<exists>enc\<in>set encodings. \<exists>t. read_csv E enc = Inr t \<and>
            (distinct (map standard_name (map fst t)) \<longrightarrow> distinct (columns out)))"
proof -
  from load_data_Some[OF assms] obtain enc where m: "msgs = []" and enc: "enc \<in> set encodings"
    and lw: "load_with L E enc = Inr out" by blast
  from lw obtain t where t: "read_csv E enc = Inr t"
    and c: "columns out = (if ''month_year'' \<in> set (map standard_name (map fst t))
                        then map standard_name (map fst t)
                        else map standard_name (map fst t) @ [''month_year''])"
    by (rule load_with_columns)
  have "str_lower name = name \<and> str_strip name = name" if "name \<in> set (columns out)" for name
  proof -
    from that c have "name = ''month_year'' \<or> (\<exists>n. name = standard_name n)"
      by (auto split: if_splits)
    then show ?thesis using standard_name_clean by (auto simp: canon_names)
  qed
  moreover from c have "distinct (map standard_name (map fst t)) \<longrightarrow> distinct (columns out)"
    by (auto split: if_splits)
  ultimately show ?thesis using m enc t by blast
qed

text \<open>
  Claim C7, as stated, fails: the headers \<^verbatim>\<open>Region\<close> and \<^verbatim>\<open>region \<close> both normalize
  to \<open>region\<close>; the loader returns a dataset with two columns of that name and reports
  nothing.
\<close>

theorem C7_column_names_counterexample:
  "load_data plain_library (env_of two_region_table) = (Some two_region_dataset, []) \<and>
   map fst two_region_table = [''Order Date'', ''Region'', ''region ''] \<and>
   columns two_region_dataset = [''order_date'', ''region'', ''region'', ''month_year''] \<and>
   \<not> distinct (columns two_region_dataset)"
  by (simp add: load_two_region) (simp add: two_region_table_def two_region_dataset_def columns_def)

theorem C7_column_names_witness:
  "load_data plain_library (env_of store_table) = (Some store_dataset, []) \<and>
   columns store_dataset = [''order_date'', ''region'', ''sales'', ''profit'', ''month_year''] \<and>
   str_lower ''order_date'' = ''order_date'' \<and> str_strip ''order_date'' = ''order_date'' \<and>
   str_lower ''month_year'' = ''month_year'' \<and> str_strip ''month_year'' = ''month_year'' \<and>
   distinct (map standard_name (map fst store_table)) \<and>
   distinct (columns store_dataset)"
proof -
  have d: "distinct (map standard_name (map fst store_table))"
    by (simp add: store_table_def standard_names)
  have c: "columns store_dataset = [''order_date'', ''region'', ''sales'', ''profit'', ''month_year'']"
    by (simp add: store_dataset_def columns_def)
  from C7_column_names[OF load_store] obtain enc t where
    a: "\<forall>name\<in>set (columns store_dataset). str_lower name = name \<and> str_strip name = name"
    and t: "read_csv (env_of store_table) enc = Inr t"
    and i: "distinct (map standard_name (map fst t)) \<longrightarrow> distinct (columns store_dataset)"
    by blast
  from t have "t = store_table" by (simp add: env_of_def)
  with i d have "distinct (columns store_dataset)" by simp
  moreover from a c have "str_lower ''order_date'' = ''order_date'' \<and>
      str_strip ''order_date'' = ''order_date'' \<and>
      str_lower ''month_year'' = ''month_year'' \<and> str_strip ''month_year'' = ''month_year''"
    by simp
  ultimately show ?thesis using d c load_store by simp
qed

text \<open>
  Claim C9, amended. Let no table read from the file have a header that normalizes to
  \<open>discount\<close>, and let \<open>load_data\<close> return a dataset in which \<open>region\<close> and
  \<open>month_year\<close> each name at most one column. Then the dataset has no discount column
  and comes without a message, and the run of the script gets past all three tabs: the
  third shows the warning that names \<open>discount\<close> as missing (after \<open>profit\<close>, if
  that is missing too), while the first and the second show their charts when their
  own columns are there and their own warning otherwise.
\<close>

theorem C9_missing_discount:
  assumes "load_data L E = (Some out, msgs)"
    and "\<forall>enc\<in>set encodings. \<forall>t. read_csv E enc = Inr t \<longrightarrow>
           ''discount'' \<notin> set (map standard_name (map fst t))"
    and "at_most_one out ''region''" and "at_most_one out ''month_year''"
  shows "\<exists>available.
           msgs = [] \<and> ''discount'' \<notin> set (columns out) \<and>
           available_regions out = Inr available \<and>
           dashboard L E choice =
             \<lparr>page = [Title, Markdown, SidebarHeader,
                      Multiselect available (selected_region choice available), Tabs]
                 @ (if ''sales'' \<in> set (columns out)
                    then [Subheader MonthlySalesTrend, Pyplot MonthlySalesTrend]
                    else [Warning ''Required columns for sales trend not available''])
                 @ (if ''region'' \<in> set (columns out) \<and> ''sales'' \<in> set (columns out)
                    then [Subheader SalesByRegion, Pyplot SalesByRegion]
                    else [Warning ''Required columns for regional analysis not available''])
                 @ [Warning (''Missing columns for correlation analysis: '' @
                      (if ''profit'' \<in> set (columns out) then ''discount''
                       else ''profit, discount''))],
              status = TabsDone\<rparr>"
proof -
  from load_data_Some[OF assms(1)] obtain enc where m: "msgs = []"
    and enc: "enc \<in> set encodings" and lw: "load_with L E enc = Inr out" by blast
  from m assms(1) have ld: "load_data L E = (Some out, [])" by simp
  from lw obtain t where t: "read_csv E enc = Inr t"
    and c: "columns out = (if ''month_year'' \<in> set (map standard_name (map fst t))
                        then map standard_name (map fst t)
                        else map standard_name (map fst t) @ [''month_year''])"
    by (rule load_with_columns)
  from assms(2) enc t have "''discount'' \<notin> set (map standard_name (map fst t))" by blast
  with c have nd: "''discount'' \<notin> set (columns out)"
    and my: "''month_year'' \<in> set (columns out)"
    by (auto split: if_splits)
  from available_regions_ok[OF assms(3)] obtain available
    where av: "available_regions out = Inr available" ..
  from filtered_df_ok[OF assms(3)] obtain fdf
    where f: "filtered_df out (selected_region choice available) = Inr fdf"
      and cf: "columns fdf = columns out"
      and am: "\<forall>key. at_most_one fdf key = at_most_one out key" by blast
  from am assms(3,4) have a1: "at_most_one fdf ''region''" "at_most_one fdf ''month_year''"
    by simp_all
  from a1 nd my cf have tabs:
    "tab1 fdf = (if ''sales'' \<in> set (columns out)
                 then [Subheader MonthlySalesTrend, Pyplot MonthlySalesTrend]
                 else [Warning ''Required columns for sales trend not available''], None)"
    "tab2 fdf = (if ''region'' \<in> set (columns out) \<and> ''sales'' \<in> set (columns out)
                 then [Subheader SalesByRegion, Pyplot SalesByRegion]
                 else [Warning ''Required columns for regional analysis not available''], None)"
    "tab3 fdf = ([Warning (''Missing columns for correlation analysis: '' @
                   (if ''profit'' \<in> set (columns out) then ''discount'' else ''profit, discount''))],
                 None)"
    using tab1_ok[of fdf] tab2_ok[of fdf] tab3_no_discount[of fdf] by simp_all
  have "dashboard L E choice =
             \<lparr>page = [Title, Markdown, SidebarHeader,
                      Multiselect available (selected_region choice available), Tabs]
                 @ (if ''sales'' \<in> set (columns out)
                    then [Subheader MonthlySalesTrend, Pyplot MonthlySalesTrend]
                    else [Warning ''Required columns for sales trend not available''])
                 @ (if ''region'' \<in> set (columns out) \<and> ''sales'' \<in> set (columns out)
                    then [Subheader SalesByRegion, Pyplot SalesByRegion]
                    else [Warning ''Required columns for regional analysis not available''])
                 @ [Warning (''Missing columns for correlation analysis: '' @
                      (if ''profit'' \<in> set (columns out) then ''discount''
                       else ''profit, discount''))],
              status = TabsDone\<rparr>"
    by (simp add: dashboard_def ld av f tabs Let_def)
  with m nd av show ?thesis by blast
qed

text \<open>
  Claim C9, as stated, fails. The file with the one header \<^verbatim>\<open>Sales\<close> lacks a discount
  column, and a date column too: nothing is loaded and the run stops after the error
  message, so the missing date column keeps every tab from being drawn. The file with
  the headers \<^verbatim>\<open>Order Date\<close>, \<^verbatim>\<open>Region\<close> and \<^verbatim>\<open>region \<close> lacks a discount column
  and is loaded, but the run ends at line 84 with AttributeError, before any tab.
\<close>

theorem C9_missing_discount_counterexample:
  "map standard_name (map fst undated_table) = [''sales''] \<and>
   load_data plain_library (env_of undated_table) = (None, [all_failed_message]) \<and>
   dashboard plain_library (env_of undated_table) None
     = \<lparr>page = [Error all_failed_message], status = Stopped\<rparr> \<and>
   map standard_name (map fst two_region_table) = [''order_date'', ''region'', ''region''] \<and>
   load_data plain_library (env_of two_region_table) = (Some two_region_dataset, []) \<and>
   dashboard plain_library (env_of two_region_table) None
     = \<lparr>page = [Title, Markdown, SidebarHeader], status = Raised AttributeError\<rparr>"
proof -
  have a: "available_regions two_region_dataset = Inl AttributeError"
    by (simp add: available_regions_def two_region_dataset_def columns_def getitem_def and_then_def)
  have n1: "map standard_name (map fst undated_table) = [''sales'']"
    by (simp add: undated_table_def standard_names)
  have n2: "map standard_name (map fst two_region_table) = [''order_date'', ''region'', ''region'']"
    by (simp add: two_region_table_def standard_names)
  have d1: "dashboard plain_library (env_of undated_table) None
     = \<lparr>page = [Error all_failed_message], status = Stopped\<rparr>"
    by (simp add: dashboard_def load_undated)
  have d2: "dashboard plain_library (env_of two_region_table) None
     = \<lparr>page = [Title, Markdown, SidebarHeader], status = Raised AttributeError\<rparr>"
    by (simp add: dashboard_def load_two_region a)
  from n1 n2 d1 d2 load_undated load_two_region show ?thesis by simp
qed

theorem C9_missing_discount_witness:
  "load_data plain_library (env_of store_table) = (Some store_dataset, []) \<and>
   read_csv (env_of store_table) ''utf-8'' = Inr store_table \<and>
   map standard_name (map fst store_table) = [''order_date'', ''region'', ''sales'', ''profit''] \<and>
   at_most_one store_dataset ''region'' \<and> at_most_one store_dataset ''month_year'' \<and>
   dashboard plain_library (env_of store_table) None =
     \<lparr>page = [Title, Markdown, SidebarHeader,
              Multiselect [Text ''East'', Text ''Central'', Text ''West'']
                          [Text ''East'', Text ''Central''],
              Tabs,
              Subheader MonthlySalesTrend, Pyplot MonthlySalesTrend,
              Subheader SalesByRegion, Pyplot SalesByRegion,
              Warning ''Missing columns for correlation analysis: discount''],
      status = TabsDone\<rparr>"
proof -
  have r: "read_csv (env_of store_table) ''utf-8'' = Inr store_table" by (simp add: env_of_def)
  have n: "map standard_name (map fst store_table) = [''order_date'', ''region'', ''sales'', ''profit'']"
    by (simp add: store_table_def standard_names)
  have a: "\<forall>enc\<in>set encodings. \<forall>t. read_csv (env_of store_table) enc = Inr t \<longrightarrow>
           ''discount'' \<notin> set (map standard_name (map fst t))"
    using n by (simp add: env_of_def)
  have o: "at_most_one store_dataset ''region''" "at_most_one store_dataset ''month_year''"
    by (simp_all add: at_most_one_def store_dataset_def)
  from C9_missing_discount[OF load_store a o, of None] obtain available
    where av: "available_regions store_dataset = Inr available"
      and d: "dashboard plain_library (env_of store_table) None =
             \<lparr>page = [Title, Markdown, SidebarHeader,
                      Multiselect available (selected_region None available), Tabs]
                 @ (if ''sales'' \<in> set (columns store_dataset)
                    then [Subheader MonthlySalesTrend, Pyplot MonthlySalesTrend]
                    else [Warning ''Required columns for sales trend not available''])
                 @ (if ''region'' \<in> set (columns store_dataset) \<and> ''sales'' \<in> set (columns store_dataset)
                    then [Subheader SalesByRegion, Pyplot SalesByRegion]
                    else [Warning ''Required columns for regional analysis not available''])
                 @ [Warning (''Missing columns for correlation analysis: '' @
                      (if ''profit'' \<in> set (columns store_dataset) then ''discount''
                       else ''profit, discount''))],
              status = TabsDone\<rparr>"
    by blast
  have c: "columns store_dataset = [''order_date'', ''region'', ''sales'', ''profit'', ''month_year'']"
    by (simp add: store_dataset_def columns_def)
  have "available_regions store_dataset = Inr [Text ''East'', Text ''Central'', Text ''West'']"
    by (simp add: available_regions_def c and_then_def unique_def)
       (simp add: store_dataset_def getitem_def)
  with av have "available = [Text ''East'', Text ''Central'', Text ''West'']" by simp
  with d c r n o load_store show ?thesis by (simp add: selected_region_def)
qed

end
